theory Spec2Isabelle
  imports Complex_Main "HOL-Library.AList"
begin

section \<open>Exchange rates (elferspot\_listings/utils/exchange\_rates.py)\<close>

text \<open>
  A Python \<open>dict\<close> from currency code to multiplier is an association list in insertion
  order; \<open>d.get(k, default)\<close> is \<open>dict_get\<close>, \<open>d[k] = v\<close> is \<open>AList.update\<close> (an
  existing key keeps its place, a new one goes to the end), and the truth value of a dict
  is \<open>d \<noteq> []\<close>. Rates are Python floats; the model computes with reals, so the
  one division of the module is exact.
\<close>

type_synonym rates = "(string \<times> real) list"

definition dict_get :: "rates \<Rightarrow> string \<Rightarrow> real \<Rightarrow> real" where
  "dict_get d k dflt = (case map_of d k of Some v \<Rightarrow> v | None \<Rightarrow> dflt)"

definition TTL_SECONDS :: real where
  "TTL_SECONDS = 24 * 3600"

definition STATIC_FALLBACK :: rates where
  "STATIC_FALLBACK =
     [(''EUR'', 1.0), (''USD'', 0.8779), (''GBP'', 1.1870), (''JPY'', 0.006076), (''CHF'', 1.0660)]"

text \<open>
  What is at \<open>cache_path\<close>: no file (\<open>None\<close>), a file on which the body of the
  \<open>try\<close> in \<open>_load_cache\<close> raises (it cannot be opened, is not JSON, is not an object, or
  its \<open>ts\<close> is not a number), or a JSON object with an optional \<open>ts\<close> and an optional
  \<open>rates\<close> mapping.
\<close>

datatype cache_content = Unreadable | Parsed "real option" "rates option"

type_synonym cache_state = "cache_content option"

text \<open>\<open>_load_cache\<close>, with the value of \<open>time.time()\<close> as an argument.\<close>

fun load_cache :: "real \<Rightarrow> cache_state \<Rightarrow> rates" where
  "load_cache now None = []"
| "load_cache now (Some Unreadable) = []"
| "load_cache now (Some (Parsed ts rs)) =
     (if now - (case ts of None \<Rightarrow> 0 | Some t \<Rightarrow> t) < TTL_SECONDS
      then (case rs of None \<Rightarrow> [] | Some r \<Rightarrow> r)
      else [])"

text \<open>
  \<open>_write_cache\<close> swallows every exception. It either writes the file, or fails before
  the file is opened and leaves it as it was, or fails after \<open>open(..., 'w')\<close> has
  truncated it.
\<close>

datatype write_outcome = Written | Not_Opened | Truncated

fun write_cache :: "write_outcome \<Rightarrow> real \<Rightarrow> rates \<Rightarrow> cache_state \<Rightarrow> cache_state" where
  "write_cache Written now rs c = Some (Parsed (Some now) (Some rs))"
| "write_cache Not_Opened now rs c = c"
| "write_cache Truncated now rs c = Some Unreadable"

text \<open>
  The outcome of the body of the \<open>try\<close> in \<open>fetch_latest_rates\<close> up to \<open>data.get\<close>: an
  exception (connection, timeout, status, parse), or a JSON object whose \<open>rates\<close> key is
  absent or holds the service's mapping.
\<close>

datatype api_result = Api_Failed | Api_Data "rates option"

record env =
  time_first :: real
  time_second :: real
  api :: api_result
  disk :: write_outcome

text \<open>
  \<open>fetch_latest_rates\<close>. \<open>time_first\<close> is the clock read by the first \<open>_load_cache\<close>,
  \<open>time_second\<close> the clock read afterwards (by \<open>_write_cache\<close> or by the handler's
  \<open>_load_cache\<close>). The result is the returned mapping and the cache file afterwards.
\<close>

definition invert_rates :: "rates \<Rightarrow> rates" where
  "invert_rates rates_base =
     map (\<lambda>(c, v). (c, if v \<noteq> 0 then 1.0 / v else dict_get STATIC_FALLBACK c 1.0)) rates_base"

definition fetch_latest_rates :: "env \<Rightarrow> bool \<Rightarrow> cache_state \<Rightarrow> rates \<times> cache_state" where
  "fetch_latest_rates e use_cache cache =
     (let cached = (if use_cache then load_cache (time_first e) cache else [])
      in if cached \<noteq> [] then (cached, cache)
         else (case api e of
                 Api_Data data \<Rightarrow>
                   (let rates_base = (case data of None \<Rightarrow> [] | Some r \<Rightarrow> r);
                        rates_to_eur = AList.update ''EUR'' 1.0 (invert_rates rates_base)
                    in (rates_to_eur, write_cache (disk e) (time_second e) rates_to_eur cache))
               | Api_Failed \<Rightarrow>
                   (let cached = load_cache (time_second e) cache
                    in if cached \<noteq> [] then (cached, cache)
                       else (STATIC_FALLBACK, cache))))"

text \<open>
  \<open>convert_to_eur\<close>. With \<open>rates = None\<close> the code calls \<open>fetch_latest_rates()\<close>, so the
  function takes the environment and the cache file too.
\<close>

definition convert_to_eur ::
  "env \<Rightarrow> cache_state \<Rightarrow> real \<Rightarrow> string \<Rightarrow> rates option \<Rightarrow> real \<times> cache_state" where
  "convert_to_eur e cache amount currency rates =
     (if currency = ''EUR'' then (amount, cache)
      else (let (rs, cache') = (case rates of
                                  None \<Rightarrow> fetch_latest_rates e True cache
                                | Some r \<Rightarrow> (r, cache));
                rate = dict_get rs currency (dict_get STATIC_FALLBACK currency 1.0)
            in (amount * rate, cache')))"


section \<open>Floating-point values of the tables\<close>

text \<open>
  A numeric cell of a pandas table is a float: a finite number, an infinity, or NaN, which is
  also how pandas stores a missing number. Finite arithmetic is modelled by the reals (no
  rounding, no overflow, no negative zero); NaN and the infinities follow IEEE 754, which
  is what decides the comparisons and the \<open>np.log\<close> of a non-positive number.
\<close>

datatype fl = NaN | NInf | PInf | Fin real

datatype error = ValueError | KeyError | TypeError | ZeroDivisionError

fun fl_neg :: "fl \<Rightarrow> fl" where
  "fl_neg NaN = NaN"
| "fl_neg NInf = PInf"
| "fl_neg PInf = NInf"
| "fl_neg (Fin x) = Fin (- x)"

fun fl_add :: "fl \<Rightarrow> fl \<Rightarrow> fl" where
  "fl_add NaN y = NaN"
| "fl_add x NaN = NaN"
| "fl_add (Fin x) (Fin y) = Fin (x + y)"
| "fl_add PInf NInf = NaN"
| "fl_add NInf PInf = NaN"
| "fl_add PInf y = PInf"
| "fl_add NInf y = NInf"
| "fl_add (Fin x) y = y"

definition fl_sub :: "fl \<Rightarrow> fl \<Rightarrow> fl" where
  "fl_sub x y = fl_add x (fl_neg y)"

fun fl_sgn :: "fl \<Rightarrow> int" where
  "fl_sgn NaN = 0"
| "fl_sgn NInf = - 1"
| "fl_sgn PInf = 1"
| "fl_sgn (Fin x) = (if x < 0 then - 1 else if x = 0 then 0 else 1)"

fun fl_mul :: "fl \<Rightarrow> fl \<Rightarrow> fl" where
  "fl_mul NaN y = NaN"
| "fl_mul x NaN = NaN"
| "fl_mul (Fin x) (Fin y) = Fin (x * y)"
| "fl_mul x y =
     (if fl_sgn x * fl_sgn y = 0 then NaN else if fl_sgn x * fl_sgn y < 0 then NInf else PInf)"

text \<open>Division by a positive count, the only division the statistics make.\<close>

fun fl_div_count :: "fl \<Rightarrow> nat \<Rightarrow> fl" where
  "fl_div_count (Fin x) n = Fin (x / real n)"
| "fl_div_count x n = x"

fun fl_sqrt :: "fl \<Rightarrow> fl" where
  "fl_sqrt (Fin x) = (if x < 0 then NaN else Fin (sqrt x))"
| "fl_sqrt PInf = PInf"
| "fl_sqrt x = NaN"

text \<open>\<open>np.log\<close>, \<open>np.log1p\<close> and \<open>x ** 2\<close>: none of them raises; they return NaN or an infinity.\<close>

fun fl_log :: "fl \<Rightarrow> fl" where
  "fl_log (Fin x) = (if x < 0 then NaN else if x = 0 then NInf else Fin (ln x))"
| "fl_log PInf = PInf"
| "fl_log x = NaN"

fun fl_log1p :: "fl \<Rightarrow> fl" where
  "fl_log1p (Fin x) = (if x < - 1 then NaN else if x = - 1 then NInf else Fin (ln (1 + x)))"
| "fl_log1p PInf = PInf"
| "fl_log1p x = NaN"

fun fl_square :: "fl \<Rightarrow> fl" where
  "fl_square NaN = NaN"
| "fl_square (Fin x) = Fin (x * x)"
| "fl_square x = PInf"

text \<open>Comparisons: false as soon as one side is NaN.\<close>

fun fl_le :: "fl \<Rightarrow> fl \<Rightarrow> bool" where
  "fl_le NaN y = False"
| "fl_le x NaN = False"
| "fl_le NInf y = True"
| "fl_le x PInf = True"
| "fl_le (Fin x) (Fin y) = (x \<le> y)"
| "fl_le x y = False"

definition fl_ge :: "fl \<Rightarrow> fl \<Rightarrow> bool" where
  "fl_ge x y = fl_le y x"

fun fl_lt :: "fl \<Rightarrow> fl \<Rightarrow> bool" where
  "fl_lt NaN y = False"
| "fl_lt x NaN = False"
| "fl_lt (Fin x) (Fin y) = (x < y)"
| "fl_lt NInf NInf = False"
| "fl_lt PInf y = False"
| "fl_lt x NInf = False"
| "fl_lt x y = True"

definition notna :: "fl \<Rightarrow> bool" where
  "notna x = (x \<noteq> NaN)"

section \<open>Raw to Cleaned: mileage (elferspot\_listings/data\_processing/bronze\_to\_silver.py)\<close>

text \<open>
  Text cells are strings of code points below 256, or null (\<open>None\<close>). In that range the
  class \<open>\d\<close> of Python's \<open>re\<close> is the ten ASCII digits and \<open>\s\<close> is the set below.
  The \<open>Mileage\<close> and \<open>Condition\<close> columns are text columns, on which the \<open>.str\<close>
  accessor works; a null cell gives a null result.
\<close>

definition is_digit :: "char \<Rightarrow> bool" where
  "is_digit c = (c \<in> set ''0123456789'')"

definition is_mileage_char :: "char \<Rightarrow> bool" where
  "is_mileage_char c = (is_digit c \<or> c = CHR '','')"

definition is_space :: "char \<Rightarrow> bool" where
  "is_space c = (c \<in> set [CHR 0x09, CHR 0x0A, CHR 0x0B, CHR 0x0C, CHR 0x0D, CHR 0x1C, CHR 0x1D,
                            CHR 0x1E, CHR 0x1F, CHR 0x20, CHR 0x85, CHR 0xA0])"

text \<open>
  The pattern \<open>([\d,]+)\s*(km|mi)\<close> tried at the start of a string. The run of digits and
  commas and the run of spaces are taken whole: giving back a character of either run puts
  a digit, a comma or a space where \<open>k\<close> or \<open>m\<close> must follow, so backtracking finds nothing
  that the greedy runs do not.
\<close>

definition match_here :: "string \<Rightarrow> (string \<times> string) option" where
  "match_here s =
     (let number = takeWhile is_mileage_char s;
          rest = dropWhile is_space (dropWhile is_mileage_char s)
      in if number = [] then None
         else if take 2 rest = ''km'' then Some (number, ''km'')
         else if take 2 rest = ''mi'' then Some (number, ''mi'')
         else None)"

text \<open>\<open>Series.str.extract\<close> searches: the match at the leftmost position that has one.\<close>

fun str_extract :: "string \<Rightarrow> (string \<times> string) option" where
  "str_extract [] = None"
| "str_extract (c # cs) =
     (case match_here (c # cs) of Some m \<Rightarrow> Some m | None \<Rightarrow> str_extract cs)"

fun str_contains :: "string \<Rightarrow> string \<Rightarrow> bool" where
  "str_contains pat [] = (pat = [])"
| "str_contains pat (c # cs) = (take (length pat) (c # cs) = pat \<or> str_contains pat cs)"

definition lower_char :: "char \<Rightarrow> char" where
  "lower_char c =
     (case map_of (zip ''ABCDEFGHIJKLMNOPQRSTUVWXYZ'' ''abcdefghijklmnopqrstuvwxyz'') c of
        Some l \<Rightarrow> l
      | None \<Rightarrow> c)"

text \<open>\<open>Series.str.contains("fully restored", case=False, na=False)\<close> on one cell.\<close>

definition contains_fully_restored :: "string option \<Rightarrow> bool" where
  "contains_fully_restored cell =
     (case cell of None \<Rightarrow> False | Some s \<Rightarrow> str_contains ''fully restored'' (map lower_char s))"

record raw_listing =
  URL :: string
  Mileage :: "string option"
  Condition :: "string option"

record mileage_listing = raw_listing +
  mileage_value :: fl
  mileage_unit :: string
  Mileage_km :: fl

definition raw_of :: "mileage_listing \<Rightarrow> raw_listing" where
  "raw_of m = \<lparr>URL = URL m, Mileage = Mileage m, Condition = Condition m\<rparr>"

text \<open>Lines 28 to 30: the two extracted columns of a row, null where the pattern does not match.\<close>

definition extract_columns :: "raw_listing \<Rightarrow> string option \<times> string option" where
  "extract_columns r =
     (case Mileage r of
        None \<Rightarrow> (None, None)
      | Some s \<Rightarrow> (case str_extract s of None \<Rightarrow> (None, None) | Some (v, u) \<Rightarrow> (Some v, Some u)))"

text \<open>Lines 33 to 36: a fully restored listing with no extracted mileage gets the string \<open>"1"\<close>.\<close>

definition fill_restored ::
  "raw_listing \<Rightarrow> string option \<times> string option \<Rightarrow> string option \<times> string option" where
  "fill_restored r vu =
     (if fst vu = None \<and> contains_fully_restored (Condition r) then (Some ''1'', snd vu) else vu)"

text \<open>Line 42: \<open>fillna("km").replace("", "km")\<close>.\<close>

definition fill_unit :: "string option \<Rightarrow> string" where
  "fill_unit u = (case u of None \<Rightarrow> ''km'' | Some t \<Rightarrow> if t = [] then ''km'' else t)"

definition digit_value :: "char \<Rightarrow> nat" where
  "digit_value c = of_char c - 48"

text \<open>
  Line 45: the commas go, and \<open>astype(float)\<close> parses what is left. It is a string of
  digits here, on which \<open>float\<close> fails only when the string is empty.
\<close>

definition astype_float :: "string \<Rightarrow> error + fl" where
  "astype_float s =
     (if s \<noteq> [] \<and> list_all is_digit s
      then Inr (Fin (real (foldl (\<lambda>n c. 10 * n + digit_value c) 0 s)))
      else Inl ValueError)"

definition parse_mileage :: "string \<Rightarrow> error + fl" where
  "parse_mileage v = astype_float (filter (\<lambda>c. c \<noteq> CHR '','') v)"

text \<open>Lines 48 and 51 for one row that was kept: miles become kilometres.\<close>

definition finish_row :: "raw_listing \<Rightarrow> string \<Rightarrow> fl \<Rightarrow> mileage_listing" where
  "finish_row r u x =
     (let km = (if u = ''mi'' then fl_mul x (Fin 1.60934) else x)
      in \<lparr>URL = URL r, Mileage = Mileage r, Condition = Condition r,
          mileage_value = km, mileage_unit = u, Mileage_km = km\<rparr>)"

text \<open>An exception in one row ends the whole call, as the vectorised \<open>astype\<close> does.\<close>

fun map_result :: "('a \<Rightarrow> error + 'b) \<Rightarrow> 'a list \<Rightarrow> error + 'b list" where
  "map_result f [] = Inr []"
| "map_result f (x # xs) =
     (case f x of
        Inl e \<Rightarrow> Inl e
      | Inr y \<Rightarrow> (case map_result f xs of Inl e \<Rightarrow> Inl e | Inr ys \<Rightarrow> Inr (y # ys)))"

text \<open>
  \<open>clean_mileage\<close>: extract, fill in the restored listings, drop the rows without a mileage
  value, default the unit, parse, convert.
\<close>

definition convert_row :: "raw_listing \<times> string \<times> string option \<Rightarrow> error + mileage_listing" where
  "convert_row = (\<lambda>(r, v, u).
     case parse_mileage v of
       Inl e \<Rightarrow> Inl e
     | Inr x \<Rightarrow> Inr (finish_row r (fill_unit u) x))"

definition clean_mileage :: "raw_listing list \<Rightarrow> error + mileage_listing list" where
  "clean_mileage df =
     (let extracted = map (\<lambda>r. (r, fill_restored r (extract_columns r))) df;
          kept = List.map_filter (\<lambda>(r, v, u). map_option (\<lambda>s. (r, s, u)) v) extracted
      in map_result convert_row kept)"

section \<open>Cleaned to Feature-Engineered (elferspot\_listings/data\_processing/silver\_to\_gold.py)\<close>

text \<open>
  A row of the Cleaned table: the columns of the mileage cleaning and the columns that the
  functions of this stage read or write, with the types the cleaning stage gives them
  (text or null, a 0/1 integer for the two flags, a float for the numbers). A table is
  its list of column names and its rows; the field of a row is meaningful only when the
  column is in the list, and the code tests \<open>name in df.columns\<close> before it reads one.
\<close>

record listing = mileage_listing +
  Model :: "string option"
  Matching_numbers :: "string option"
  Number_of_vehicle_owners :: "string option"
  Interior_color :: "string option"
  Exterior_color :: "string option"
  PTS :: int
  is_fully_restored :: int
  price_in_eur :: fl
  log_price :: fl
  log_mileage :: fl
  Mileage_sq :: fl
  model_category :: string
  listing_score :: int

record frame =
  columns :: "string list"
  rows :: "listing list"

text \<open>\<open>df[name] = ...\<close>: a new column goes to the end, an existing one keeps its place.\<close>

definition add_column :: "string \<Rightarrow> string list \<Rightarrow> string list" where
  "add_column c cs = (if c \<in> set cs then cs else cs @ [c])"

text \<open>The columns on which \<open>np.log\<close>, \<open>mean\<close> and \<open>std\<close> work, read as floats.\<close>

definition numeric_column :: "string \<Rightarrow> (listing \<Rightarrow> fl) option" where
  "numeric_column c =
     map_of [(''mileage_value'', mileage_value), (''Mileage_km'', Mileage_km),
             (''price_in_eur'', price_in_eur), (''log_price'', log_price),
             (''log_mileage'', log_mileage), (''Mileage_sq'', Mileage_sq),
             (''Paint-to-Sample (PTS)'', \<lambda>r. Fin (real_of_int (PTS r))),
             (''is_fully_restored'', \<lambda>r. Fin (real_of_int (is_fully_restored r))),
             (''listing_score'', \<lambda>r. Fin (real_of_int (listing_score r)))] c"

definition fl_sum :: "fl list \<Rightarrow> fl" where
  "fl_sum xs = foldl fl_add (Fin 0) xs"

text \<open>
  \<open>Series.mean()\<close> and \<open>Series.std()\<close>: NaN cells are skipped; the mean of no value is NaN;
  the standard deviation divides by the count minus one and is NaN for fewer than two values.
\<close>

definition nanmean :: "fl list \<Rightarrow> fl" where
  "nanmean xs =
     (let vals = filter notna xs
      in if vals = [] then NaN else fl_div_count (fl_sum vals) (length vals))"

definition nanstd :: "fl list \<Rightarrow> fl" where
  "nanstd xs =
     (let vals = filter notna xs;
          count = length vals
      in if count \<le> 1 then NaN
         else (let avg = fl_div_count (fl_sum vals) count;
                   sqr = map (\<lambda>v. fl_square (fl_sub avg v)) vals
               in fl_sqrt (fl_div_count (fl_sum sqr) (count - 1))))"

definition in_band :: "fl \<Rightarrow> fl \<Rightarrow> fl \<Rightarrow> fl \<Rightarrow> bool" where
  "in_band mean_val std_val n_std x =
     (fl_ge x (fl_sub mean_val (fl_mul n_std std_val)) \<and>
      fl_le x (fl_add mean_val (fl_mul n_std std_val)))"

text \<open>
  \<open>remove_outliers\<close>. A missing column raises at \<open>df[column]\<close>, a text column in the
  arithmetic; the log column is a temporary one, dropped from the result; and the last log
  message divides by the number of input rows, which raises on an empty table.
\<close>

definition remove_outliers :: "frame \<Rightarrow> string \<Rightarrow> fl \<Rightarrow> bool \<Rightarrow> error + frame" where
  "remove_outliers df column n_std use_log =
     (if column \<notin> set (columns df) then Inl KeyError
      else case numeric_column column of
             None \<Rightarrow> Inl TypeError
           | Some col \<Rightarrow>
               (let initial_count = length (rows df);
                    val = (\<lambda>r. if use_log then fl_log (col r) else col r);
                    mean_val = nanmean (map val (rows df));
                    std_val = nanstd (map val (rows df));
                    kept = filter (\<lambda>r. in_band mean_val std_val n_std (val r)) (rows df);
                    cols = (if use_log then removeAll (''log_'' @ column) (columns df)
                            else columns df)
                in if initial_count = 0 then Inl ZeroDivisionError
                   else Inr \<lparr>columns = cols, rows = kept\<rparr>))"

text \<open>\<open>create_log_features\<close>: no test of the sign, \<open>np.log\<close> and \<open>np.log1p\<close> do not raise.\<close>

definition create_log_features :: "frame \<Rightarrow> frame" where
  "create_log_features df =
     (let df1 = (if ''price_in_eur'' \<in> set (columns df)
                 then \<lparr>columns = add_column ''log_price'' (columns df),
                       rows = map (\<lambda>r. r\<lparr>log_price := fl_log (price_in_eur r)\<rparr>) (rows df)\<rparr>
                 else df)
      in if ''Mileage_km'' \<in> set (columns df1)
         then \<lparr>columns = add_column ''Mileage_sq'' (add_column ''log_mileage'' (columns df1)),
               rows = map (\<lambda>r. r\<lparr>log_mileage := fl_log1p (Mileage_km r),
                                 Mileage_sq := fl_square (Mileage_km r)\<rparr>) (rows df1)\<rparr>
         else df1)"

definition model_mapping :: "(string \<times> string) list" where
  "model_mapping =
     [(''911'', ''911''), (''912'', ''912''), (''914'', ''914''), (''924'', ''924''),
      (''928'', ''928''), (''944'', ''944''), (''968'', ''968''), (''Boxster'', ''Boxster''),
      (''Cayman'', ''Cayman''), (''Carrera GT'', ''Supercar''), (''918'', ''Supercar''),
      (''Cayenne'', ''SUV''), (''Macan'', ''SUV''), (''Panamera'', ''Sedan''),
      (''Taycan'', ''Electric'')]"

text \<open>
  The loop of \<open>categorize_model\<close> over the mapping in its order. The keys are ASCII, so
  lowering the letters outside ASCII would not change whether a key occurs.
\<close>

fun first_category :: "(string \<times> string) list \<Rightarrow> string \<Rightarrow> string" where
  "first_category [] model = ''Other''"
| "first_category ((key, category) # rest) model =
     (if str_contains (map lower_char key) (map lower_char model) then category
      else first_category rest model)"

definition categorize_model :: "string option \<Rightarrow> string" where
  "categorize_model model =
     (case model of None \<Rightarrow> ''Other'' | Some m \<Rightarrow> first_category model_mapping m)"

definition create_model_categories :: "frame \<Rightarrow> frame" where
  "create_model_categories df =
     (if ''Model'' \<notin> set (columns df) then df
      else \<lparr>columns = add_column ''model_category'' (columns df),
            rows = map (\<lambda>r. r\<lparr>model_category := categorize_model (Model r)\<rparr>) (rows df)\<rparr>)"

text \<open>
  \<open>calculate_listing_score\<close>: one series of integers per source column that is present, in
  the order of the code, then their sum row by row (\<open>pd.concat(..., axis=1).sum(axis=1)\<close>), or
  the constant 0 when there is no series. \<open>!= 'Unknown'\<close> is true on a null cell; a NaN
  mileage is not below 50000.
\<close>

definition score_components :: "frame \<Rightarrow> int list list" where
  "score_components df =
     (if ''Matching numbers'' \<in> set (columns df)
      then [map (\<lambda>r. of_bool (Matching_numbers r \<noteq> Some ''Unknown'') * 10) (rows df)] else [])
     @ (if ''Number of vehicle owners'' \<in> set (columns df)
        then [map (\<lambda>r. of_bool (Number_of_vehicle_owners r \<noteq> Some ''Unknown'') * 10) (rows df)]
        else [])
     @ (if ''Interior color'' \<in> set (columns df)
        then [map (\<lambda>r. of_bool (Interior_color r \<noteq> None) * 5) (rows df)] else [])
     @ (if ''Exterior color'' \<in> set (columns df)
        then [map (\<lambda>r. of_bool (Exterior_color r \<noteq> None) * 5) (rows df)] else [])
     @ (if ''Paint-to-Sample (PTS)'' \<in> set (columns df)
        then [map (\<lambda>r. PTS r * 15) (rows df)] else [])
     @ (if ''is_fully_restored'' \<in> set (columns df)
        then [map (\<lambda>r. is_fully_restored r * 20) (rows df)] else [])
     @ (if ''Mileage_km'' \<in> set (columns df)
        then [map (\<lambda>r. if fl_lt (Mileage_km r) (Fin 50000) then 10 else 0) (rows df)] else [])"

definition row_sums :: "nat \<Rightarrow> int list list \<Rightarrow> int list" where
  "row_sums n series = map (\<lambda>i. sum_list (map (\<lambda>s. s ! i) series)) [0..<n]"

definition calculate_listing_score :: "frame \<Rightarrow> frame" where
  "calculate_listing_score df =
     (let score_components = score_components df;
          scores = (if score_components \<noteq> [] then row_sums (length (rows df)) score_components
                    else replicate (length (rows df)) 0)
      in \<lparr>columns = add_column ''listing_score'' (columns df),
          rows = map (\<lambda>(r, s). r\<lparr>listing_score := s\<rparr>) (zip (rows df) scores)\<rparr>)"

text \<open>
  \<open>prepare_modeling_features\<close>: \<open>pd.to_numeric\<close> leaves a float column as it is; the two
  colour columns get \<open>"Unknown"\<close> for null.
\<close>

definition fillna_unknown :: "string option \<Rightarrow> string option" where
  "fillna_unknown cell = (case cell of None \<Rightarrow> Some ''Unknown'' | Some s \<Rightarrow> Some s)"

definition prepare_modeling_features :: "frame \<Rightarrow> frame" where
  "prepare_modeling_features df =
     (let df1 = (if ''Interior color'' \<in> set (columns df)
                 then df\<lparr>rows := map (\<lambda>r. r\<lparr>Interior_color := fillna_unknown (Interior_color r)\<rparr>)
                                   (rows df)\<rparr>
                 else df)
      in if ''Exterior color'' \<in> set (columns df1)
         then df1\<lparr>rows := map (\<lambda>r. r\<lparr>Exterior_color := fillna_unknown (Exterior_color r)\<rparr>)
                             (rows df1)\<rparr>
         else df1)"

text \<open>
  \<open>process_silver_to_gold\<close> from the table read at \<open>silver_path\<close> to the table written at
  \<open>gold_path\<close> and returned: \<open>Inr\<close> is a run that completed and persisted its output, \<open>Inl\<close> a
  run that an exception aborted before the write. Reading and writing the files are taken
  to succeed.
\<close>

definition process_silver_to_gold :: "frame \<Rightarrow> bool \<Rightarrow> fl \<Rightarrow> error + frame" where
  "process_silver_to_gold silver remove_price_outliers outlier_std =
     (if ''price_in_eur'' \<notin> set (columns silver) then Inl KeyError
      else (let df = silver\<lparr>rows := filter (\<lambda>r. notna (price_in_eur r)) (rows silver)\<rparr>
            in case (if remove_price_outliers
                     then remove_outliers df ''price_in_eur'' outlier_std True
                     else Inr df) of
                 Inl e \<Rightarrow> Inl e
               | Inr df \<Rightarrow>
                   Inr (prepare_modeling_features
                          (calculate_listing_score
                             (create_model_categories (create_log_features df))))))"

text \<open>
  The listing score as the sum of its seven signals, each worth a fixed weight when its source
  column is present and its condition holds, and nothing otherwise.
\<close>

definition signal :: "string list \<Rightarrow> string \<Rightarrow> bool \<Rightarrow> int \<Rightarrow> int" where
  "signal cols source holds weight = (if source \<in> set cols \<and> holds then weight else 0)"

definition weighted_signals :: "string list \<Rightarrow> listing \<Rightarrow> int" where
  "weighted_signals cols r =
     signal cols ''Matching numbers'' (Matching_numbers r \<noteq> Some ''Unknown'') 10
   + signal cols ''Number of vehicle owners'' (Number_of_vehicle_owners r \<noteq> Some ''Unknown'') 10
   + signal cols ''Interior color'' (Interior_color r \<noteq> None) 5
   + signal cols ''Exterior color'' (Exterior_color r \<noteq> None) 5
   + signal cols ''Paint-to-Sample (PTS)'' (PTS r = 1) 15
   + signal cols ''is_fully_restored'' (is_fully_restored r = 1) 20
   + signal cols ''Mileage_km'' (fl_lt (Mileage_km r) (Fin 50000)) 10"

text \<open>The two flag columns hold 0 or 1, as \<open>clean_condition\<close> and \<open>create_derived_features\<close> write them.\<close>

definition flags_ok :: "listing \<Rightarrow> bool" where
  "flags_ok r = ((PTS r = 0 \<or> PTS r = 1) \<and> (is_fully_restored r = 0 \<or> is_fully_restored r = 1))"

text \<open>A row with every text cell null, every number NaN and both flags 0, to write tables with.\<close>

definition blank_listing :: listing where
  "blank_listing =
     \<lparr>URL = [], Mileage = None, Condition = None, mileage_value = NaN, mileage_unit = [],
      Mileage_km = NaN, Model = None, Matching_numbers = None, Number_of_vehicle_owners = None,
      Interior_color = None, Exterior_color = None, PTS = 0, is_fully_restored = 0,
      price_in_eur = NaN, log_price = NaN, log_mileage = NaN, Mileage_sq = NaN,
      model_category = [], listing_score = 0\<rparr>"

section \<open>Properties of the rate provider and the converter\<close>




lemma load_cache_no_file: "load_cache now None = []"
  by simp

text \<open>
  The branch of the claim that the code keeps: a failed fetch with no cache file gives
  exactly the static table.
\<close>

lemma fetch_failed_no_cache_file:
  "api e = Api_Failed \<Longrightarrow> fetch_latest_rates e use_cache None = (STATIC_FALLBACK, None)"
  by (simp add: fetch_latest_rates_def)

text \<open>
  A cache that was too old for the first look is too old for the second: with
  \<open>use_cache\<close> set, the handler of a failed fetch never returns the cache.
\<close>

lemma load_cache_later:
  "t1 \<le> t2 \<Longrightarrow> load_cache t1 c = [] \<Longrightarrow> load_cache t2 c = []"
  by (cases "(t1, c)" rule: load_cache.cases) (auto split: if_splits)

lemma fetch_failed_handler_static:
  assumes "api e = Api_Failed" "time_first e \<le> time_second e"
    and "load_cache (time_first e) cache = []"
  shows "fetch_latest_rates e True cache = (STATIC_FALLBACK, cache)"
  using assms load_cache_later [of "time_first e" "time_second e" cache]
  by (simp add: fetch_latest_rates_def)

text \<open>
  C1 (the code at the failing input). The cache file holds a mapping written 100000 seconds
  ago, more than the 24 hours of \<open>TTL_SECONDS\<close>, and the fetch fails: the code returns the
  static table and not the mapping of the cache file, because the handler reads the cache
  through \<open>_load_cache\<close>, which discards a file older than the TTL.
\<close>

theorem fetch_failed_stale_cache_returns_static:
  "fetch_latest_rates
     \<lparr>time_first = 100000, time_second = 100000, api = Api_Failed, disk = Written\<rparr> True
     (Some (Parsed (Some 0) (Some [(''USD'', 0.9), (''EUR'', 1.0)])))
   = (STATIC_FALLBACK, Some (Parsed (Some 0) (Some [(''USD'', 0.9), (''EUR'', 1.0)])))
   \<and> STATIC_FALLBACK \<noteq> [(''USD'', 0.9), (''EUR'', 1.0)]"
  by (simp add: fetch_latest_rates_def TTL_SECONDS_def STATIC_FALLBACK_def)




text \<open>
  C6. With currency \<open>EUR\<close> the amount comes back unchanged whatever the \<open>rates\<close> argument is
  (a mapping without \<open>EUR\<close>, one with another value for it, or none at all): the mapping is
  not read and no rates are fetched, so the cache file is untouched.
\<close>

theorem convert_to_eur_identity:
  "convert_to_eur e cache amount ''EUR'' rates = (amount, cache)"
  by (simp add: convert_to_eur_def)

text \<open>
  C7. For a currency other than \<open>EUR\<close> and a given rate mapping the result is the amount
  times the mapping's entry for the currency if it has one, else times the static table's
  entry if it has one, else times 1.0; the function returns (it has no failing branch) and
  leaves the cache file alone.
\<close>

theorem convert_to_eur_multiplier:
  assumes "currency \<noteq> ''EUR''"
  shows "convert_to_eur e cache amount currency (Some rs) =
           (amount * (if currency \<in> fst ` set rs then the (map_of rs currency)
                      else if currency \<in> fst ` set STATIC_FALLBACK
                           then the (map_of STATIC_FALLBACK currency)
                      else 1.0), cache)"
proof -
  have get: "dict_get d k dflt = (if k \<in> fst ` set d then the (map_of d k) else dflt)"
    for d k dflt
  proof (cases "map_of d k")
    case None
    then have "k \<notin> fst ` set d" by (simp add: map_of_eq_None_iff)
    with None show ?thesis by (simp add: dict_get_def)
  next
    case (Some v)
    then have "k \<in> fst ` set d" by (metis map_of_eq_None_iff option.distinct(1))
    with Some show ?thesis by (simp add: dict_get_def)
  qed
  from assms show ?thesis
    by (simp add: convert_to_eur_def get)
qed

theorem convert_to_eur_multiplier_witness:
  "''USD'' \<noteq> ''EUR''
   \<and> convert_to_eur \<lparr>time_first = 5, time_second = 5, api = Api_Failed, disk = Written\<rparr> None
         100 ''USD'' (Some [(''USD'', 0.9), (''EUR'', 1.0)]) = (90, None)
   \<and> convert_to_eur \<lparr>time_first = 5, time_second = 5, api = Api_Failed, disk = Written\<rparr> None
         100 ''GBP'' (Some [(''USD'', 0.9), (''EUR'', 1.0)]) = (118.7, None)
   \<and> convert_to_eur \<lparr>time_first = 5, time_second = 5, api = Api_Failed, disk = Written\<rparr> None
         100 ''SEK'' (Some [(''USD'', 0.9), (''EUR'', 1.0)]) = (100, None)"
  using convert_to_eur_multiplier [of "''USD''"
      "\<lparr>time_first = 5, time_second = 5, api = Api_Failed, disk = Written\<rparr>" None 100
      "[(''USD'', 0.9), (''EUR'', 1.0)]"]
    convert_to_eur_multiplier [of "''GBP''"
      "\<lparr>time_first = 5, time_second = 5, api = Api_Failed, disk = Written\<rparr>" None 100
      "[(''USD'', 0.9), (''EUR'', 1.0)]"]
    convert_to_eur_multiplier [of "''SEK''"
      "\<lparr>time_first = 5, time_second = 5, api = Api_Failed, disk = Written\<rparr>" None 100
      "[(''USD'', 0.9), (''EUR'', 1.0)]"]
  by (simp add: STATIC_FALLBACK_def)

section \<open>Properties of the mileage cleaning\<close>

subsection \<open>The pattern\<close>

lemma str_contains_iff: "str_contains pat s \<longleftrightarrow> (\<exists>a b. s = a @ pat @ b)"
proof (induction s)
  case Nil
  then show ?case by auto
next
  case (Cons c cs)
  show ?case
  proof
    assume "str_contains pat (c # cs)"
    then consider "take (length pat) (c # cs) = pat" | "str_contains pat cs" by auto
    then show "\<exists>a b. c # cs = a @ pat @ b"
    proof cases
      case 1
      then have "c # cs = [] @ pat @ drop (length pat) (c # cs)"
        by (metis append_Nil append_take_drop_id)
      then show ?thesis by blast
    next
      case 2
      with Cons obtain a b where "cs = a @ pat @ b" by blast
      then have "c # cs = (c # a) @ pat @ b" by simp
      then show ?thesis by blast
    qed
  next
    assume "\<exists>a b. c # cs = a @ pat @ b"
    then obtain a b where ab: "c # cs = a @ pat @ b" by blast
    show "str_contains pat (c # cs)"
    proof (cases a)
      case Nil
      with ab have "take (length pat) (c # cs) = pat" by simp
      then show ?thesis by simp
    next
      case (Cons x a')
      with ab have "cs = a' @ pat @ b" by simp
      with Cons.IH show ?thesis by auto
    qed
  qed
qed

lemma match_here_contains:
  assumes "match_here s = Some (v, u)"
  shows "str_contains u s \<and> (u = ''km'' \<or> u = ''mi'')"
proof -
  let ?rest = "dropWhile is_space (dropWhile is_mileage_char s)"
  have s: "s = (takeWhile is_mileage_char s @ takeWhile is_space (dropWhile is_mileage_char s)) @ ?rest"
    by simp
  from assms have u: "take 2 ?rest = u" "u = ''km'' \<or> u = ''mi''"
    by (auto simp: match_here_def Let_def split: if_splits)
  then have "?rest = u @ drop 2 ?rest"
    by (metis append_take_drop_id)
  with s have "\<exists>a b. s = a @ u @ b" by metis
  with u show ?thesis by (simp add: str_contains_iff)
qed

lemma str_contains_Cons: "str_contains pat cs \<Longrightarrow> str_contains pat (c # cs)"
  by simp

lemma str_extract_contains:
  "str_extract s = Some (v, u) \<Longrightarrow> str_contains u s \<and> (u = ''km'' \<or> u = ''mi'')"
proof (induction s)
  case Nil
  then show ?case by simp
next
  case (Cons c cs)
  show ?case
  proof (cases "match_here (c # cs)")
    case None
    with Cons show ?thesis by auto
  next
    case (Some m)
    with Cons.prems have "match_here (c # cs) = Some (v, u)" by simp
    then show ?thesis by (rule match_here_contains)
  qed
qed

lemma no_unit_no_extract:
  "\<not> str_contains ''km'' s \<Longrightarrow> \<not> str_contains ''mi'' s \<Longrightarrow> str_extract s = None"
  using str_extract_contains [of s] by (cases "str_extract s") auto

lemma match_here_token:
  "match_here s = Some (v, u) \<Longrightarrow> v \<noteq> [] \<and> list_all is_mileage_char v"
  by (auto simp: match_here_def Let_def list_all_iff split: if_splits dest: set_takeWhileD)

lemma str_extract_token:
  "str_extract s = Some (v, u) \<Longrightarrow> v \<noteq> [] \<and> list_all is_mileage_char v"
  by (induction s) (auto split: option.splits dest: match_here_token)

text \<open>
  \<open>match_here\<close> is the pattern read as a specification: a non-empty run of digits and commas,
  any spaces, then \<open>km\<close> or \<open>mi\<close>; and \<open>str_extract\<close> takes the leftmost position with a match.
\<close>

lemma space_not_mileage_char: "is_space c \<Longrightarrow> \<not> is_mileage_char c"
  by (auto simp: is_space_def is_mileage_char_def is_digit_def)

lemma unit_start:
  assumes "u = ''km'' \<or> u = ''mi''"
  shows "\<not> is_mileage_char (hd (u @ t))" "\<not> is_space (hd (u @ t))" "u @ t \<noteq> []"
    "take 2 (u @ t) = u"
  using assms by (auto simp: is_space_def is_mileage_char_def is_digit_def)

lemma takeWhile_stop:
  "list_all P xs \<Longrightarrow> ys \<noteq> [] \<Longrightarrow> \<not> P (hd ys) \<Longrightarrow>
     takeWhile P (xs @ ys) = xs \<and> dropWhile P (xs @ ys) = ys"
  by (cases ys) (auto simp: list_all_iff takeWhile_append2 dropWhile_append2)

lemma match_here_iff:
  "match_here s = Some (v, u) \<longleftrightarrow>
     (\<exists>w t. s = v @ w @ u @ t \<and> v \<noteq> [] \<and> list_all is_mileage_char v \<and> list_all is_space w
            \<and> (u = ''km'' \<or> u = ''mi''))"
proof
  assume m: "match_here s = Some (v, u)"
  let ?rest = "dropWhile is_space (dropWhile is_mileage_char s)"
  let ?w = "takeWhile is_space (dropWhile is_mileage_char s)"
  from m have v: "v = takeWhile is_mileage_char s" "v \<noteq> []"
    and u: "take 2 ?rest = u" "u = ''km'' \<or> u = ''mi''"
    by (auto simp: match_here_def Let_def split: if_splits)
  have "s = v @ ?w @ ?rest" by (simp add: v)
  also have "?rest = u @ drop 2 ?rest" using u(1) by (metis append_take_drop_id)
  finally have "s = v @ ?w @ u @ drop 2 ?rest" .
  moreover have "list_all is_mileage_char v" "list_all is_space ?w"
    by (auto simp: v list_all_iff dest: set_takeWhileD)
  ultimately show "\<exists>w t. s = v @ w @ u @ t \<and> v \<noteq> [] \<and> list_all is_mileage_char v
      \<and> list_all is_space w \<and> (u = ''km'' \<or> u = ''mi'')"
    using v(2) u(2) by blast
next
  assume "\<exists>w t. s = v @ w @ u @ t \<and> v \<noteq> [] \<and> list_all is_mileage_char v \<and> list_all is_space w
            \<and> (u = ''km'' \<or> u = ''mi'')"
  then obtain w t where s: "s = v @ w @ u @ t" and v: "v \<noteq> []" "list_all is_mileage_char v"
    and w: "list_all is_space w" and u: "u = ''km'' \<or> u = ''mi''"
    by blast
  have "w @ u @ t \<noteq> []" "\<not> is_mileage_char (hd (w @ u @ t))"
    using unit_start [OF u, of t] w
    by (cases w; auto simp: space_not_mileage_char)+
  with v(2) have 1: "takeWhile is_mileage_char s = v" "dropWhile is_mileage_char s = w @ u @ t"
    unfolding s by (simp_all add: takeWhile_stop)
  from w unit_start [OF u, of t]
  have 2: "dropWhile is_space (w @ u @ t) = u @ t"
    by (simp add: takeWhile_stop)
  from u show "match_here s = Some (v, u)"
    using v(1) unit_start(4) [OF u, of t]
    by (auto simp: match_here_def Let_def 1 2)
qed

text \<open>str_extract returns the match of the leftmost position that has one\<close>

lemma str_extract_leftmost:
  "str_extract s = Some m \<longleftrightarrow>
     (\<exists>p q. s = p @ q \<and> match_here q = Some m
            \<and> (\<forall>p' q'. s = p' @ q' \<and> length p' < length p \<longrightarrow> match_here q' = None))"
proof (induction s)
  case Nil
  have "match_here [] = None" by (simp add: match_here_def)
  then show ?case by auto
next
  case (Cons c cs)
  show ?case
  proof (cases "match_here (c # cs)")
    case (Some m')
    show ?thesis
    proof
      assume "str_extract (c # cs) = Some m"
      with Some have "match_here (c # cs) = Some m" by simp
      then have "c # cs = [] @ (c # cs) \<and> match_here (c # cs) = Some m
          \<and> (\<forall>p' q'. c # cs = p' @ q' \<and> length p' < length ([]::string) \<longrightarrow> match_here q' = None)"
        by simp
      then show "\<exists>p q. c # cs = p @ q \<and> match_here q = Some m
            \<and> (\<forall>p' q'. c # cs = p' @ q' \<and> length p' < length p \<longrightarrow> match_here q' = None)"
        by blast
    next
      assume "\<exists>p q. c # cs = p @ q \<and> match_here q = Some m
            \<and> (\<forall>p' q'. c # cs = p' @ q' \<and> length p' < length p \<longrightarrow> match_here q' = None)"
      then obtain p q where pq: "c # cs = p @ q" "match_here q = Some m"
        and least: "\<forall>p' q'. c # cs = p' @ q' \<and> length p' < length p \<longrightarrow> match_here q' = None"
        by blast
      have "p = []"
      proof (rule ccontr)
        assume "p \<noteq> []"
        then have "c # cs = [] @ (c # cs) \<and> length ([]::string) < length p" by simp
        with least have "match_here (c # cs) = None" by blast
        with Some show False by simp
      qed
      with pq have "match_here (c # cs) = Some m" by simp
      then show "str_extract (c # cs) = Some m" by simp
    qed
  next
    case None
    then have ext: "str_extract (c # cs) = str_extract cs" by simp
    show ?thesis
    proof
      assume "str_extract (c # cs) = Some m"
      with ext Cons.IH obtain p q where pq: "cs = p @ q" "match_here q = Some m"
        and least: "\<forall>p' q'. cs = p' @ q' \<and> length p' < length p \<longrightarrow> match_here q' = None"
        by auto
      have "match_here q' = None" if "c # cs = p' @ q'" "length p' < length (c # p)" for p' q'
      proof (cases p')
        case Nil
        with that None show ?thesis by simp
      next
        case (Cons x p'')
        with that have "cs = p'' @ q'" "length p'' < length p" by auto
        with least show ?thesis by blast
      qed
      with pq have "c # cs = (c # p) @ q \<and> match_here q = Some m
          \<and> (\<forall>p' q'. c # cs = p' @ q' \<and> length p' < length (c # p) \<longrightarrow> match_here q' = None)"
        by simp
      then show "\<exists>p q. c # cs = p @ q \<and> match_here q = Some m
            \<and> (\<forall>p' q'. c # cs = p' @ q' \<and> length p' < length p \<longrightarrow> match_here q' = None)"
        by blast
    next
      assume "\<exists>p q. c # cs = p @ q \<and> match_here q = Some m
            \<and> (\<forall>p' q'. c # cs = p' @ q' \<and> length p' < length p \<longrightarrow> match_here q' = None)"
      then obtain p q where pq: "c # cs = p @ q" "match_here q = Some m"
        and least: "\<forall>p' q'. c # cs = p' @ q' \<and> length p' < length p \<longrightarrow> match_here q' = None"
        by blast
      from pq None obtain p0 where p: "p = c # p0" "cs = p0 @ q"
        by (cases p) auto
      have "match_here q' = None" if "cs = p' @ q'" "length p' < length p0" for p' q'
      proof -
        from that p have "c # cs = (c # p') @ q' \<and> length (c # p') < length p" by simp
        with least show ?thesis by blast
      qed
      with p pq(2) have "\<exists>p q. cs = p @ q \<and> match_here q = Some m
            \<and> (\<forall>p' q'. cs = p' @ q' \<and> length p' < length p \<longrightarrow> match_here q' = None)"
        by blast
      with Cons.IH ext show "str_extract (c # cs) = Some m" by simp
    qed
  qed
qed

subsection \<open>Rows kept, rows dropped\<close>

lemma map_result_Inr:
  "map_result f xs = Inr ys \<Longrightarrow> list_all2 (\<lambda>x y. f x = Inr y) xs ys"
  by (induction xs arbitrary: ys) (auto split: sum.splits)

lemma map_result_Inr_iff:
  "(\<exists>ys. map_result f xs = Inr ys) \<longleftrightarrow> (\<forall>x \<in> set xs. \<exists>y. f x = Inr y)"
  by (induction xs) (auto split: sum.splits)



lemma parse_mileage_one: "parse_mileage ''1'' = Inr (Fin 1)"
  by (simp add: parse_mileage_def astype_float_def is_digit_def digit_value_def)


lemma extract_columns_None: "fst (extract_columns r) = None \<Longrightarrow> extract_columns r = (None, None)"
  by (auto simp: extract_columns_def split: option.splits)

lemma raw_of_finish_row: "raw_of (finish_row r u x) = r"
  by (simp add: raw_of_def finish_row_def Let_def)

lemma convert_row_Inr:
  "convert_row (r, v, u) = Inr m \<Longrightarrow>
     \<exists>x. parse_mileage v = Inr x \<and> m = finish_row r (fill_unit u) x"
  by (auto simp: convert_row_def split: sum.splits)

lemma kept_rows:
  "List.map_filter (\<lambda>(r, v, u). map_option (\<lambda>s. (r, s, u)) v)
     (map (\<lambda>r. (r, fill_restored r (extract_columns r))) df)
   = map (\<lambda>r. (r, the (fst (fill_restored r (extract_columns r))),
                 snd (fill_restored r (extract_columns r))))
       (filter (\<lambda>r. fst (fill_restored r (extract_columns r)) \<noteq> None) df)"
  by (induction df) (auto simp: List.map_filter_simps split: prod.splits)

lemma clean_mileage_Inr:
  assumes "clean_mileage df = Inr out"
  shows "list_all2
           (\<lambda>r m. \<exists>v x. fst (fill_restored r (extract_columns r)) = Some v
                    \<and> parse_mileage v = Inr x
                    \<and> m = finish_row r (fill_unit (snd (fill_restored r (extract_columns r)))) x)
           (filter (\<lambda>r. fst (fill_restored r (extract_columns r)) \<noteq> None) df) out"
proof -
  let ?F = "\<lambda>r. fill_restored r (extract_columns r)"
  let ?kept = "filter (\<lambda>r. fst (?F r) \<noteq> None) df"
  from assms have "map_result convert_row (map (\<lambda>r. (r, the (fst (?F r)), snd (?F r))) ?kept) = Inr out"
    by (simp add: clean_mileage_def kept_rows)
  then have "list_all2 (\<lambda>x m. convert_row x = Inr m) (map (\<lambda>r. (r, the (fst (?F r)), snd (?F r))) ?kept) out"
    by (rule map_result_Inr)
  then have "list_all2 (\<lambda>r m. convert_row (r, the (fst (?F r)), snd (?F r)) = Inr m) ?kept out"
    by (simp add: list_all2_map1)
  then show ?thesis
  proof (rule list.rel_mono_strong)
    fix r m
    assume r: "r \<in> set ?kept" and c: "convert_row (r, the (fst (?F r)), snd (?F r)) = Inr m"
    from r obtain v where v: "fst (?F r) = Some v" by auto
    with convert_row_Inr [OF c] show "\<exists>v x. fst (?F r) = Some v \<and> parse_mileage v = Inr x
        \<and> m = finish_row r (fill_unit (snd (?F r))) x"
      by auto
  qed
qed

lemma clean_mileage_raw:
  assumes "clean_mileage df = Inr out"
  shows "map raw_of out = filter (\<lambda>r. fst (fill_restored r (extract_columns r)) \<noteq> None) df"
proof -
  have "list_all2 (\<lambda>r m. raw_of m = r)
          (filter (\<lambda>r. fst (fill_restored r (extract_columns r)) \<noteq> None) df) out"
    using clean_mileage_Inr [OF assms]
    by (rule list.rel_mono_strong) (auto simp: raw_of_finish_row)
  then show ?thesis
    by (induction rule: list_all2_induct) auto
qed

lemma list_all2_rightD: "list_all2 P xs ys \<Longrightarrow> y \<in> set ys \<Longrightarrow> \<exists>x \<in> set xs. P x y"
  by (induction rule: list_all2_induct) auto

lemma clean_mileage_row:
  assumes "clean_mileage df = Inr out" "m \<in> set out"
  shows "\<exists>v x. raw_of m \<in> set df
            \<and> fst (fill_restored (raw_of m) (extract_columns (raw_of m))) = Some v
            \<and> parse_mileage v = Inr x
            \<and> m = finish_row (raw_of m)
                    (fill_unit (snd (fill_restored (raw_of m) (extract_columns (raw_of m))))) x"
proof -
  from clean_mileage_Inr [OF assms(1)] assms(2)
  obtain r where r: "r \<in> set (filter (\<lambda>r. fst (fill_restored r (extract_columns r)) \<noteq> None) df)"
    and "\<exists>v x. fst (fill_restored r (extract_columns r)) = Some v
                    \<and> parse_mileage v = Inr x
                    \<and> m = finish_row r (fill_unit (snd (fill_restored r (extract_columns r)))) x"
    by (blast dest: list_all2_rightD)
  then obtain v x where vx: "fst (fill_restored r (extract_columns r)) = Some v"
      "parse_mileage v = Inr x"
      "m = finish_row r (fill_unit (snd (fill_restored r (extract_columns r)))) x"
    by blast
  then have "raw_of m = r" by (simp add: raw_of_finish_row)
  with r vx show ?thesis by auto
qed



lemma clean_mileage_dropped:
  assumes "clean_mileage df = Inr out"
    and "fst (extract_columns r) = None" "\<not> contains_fully_restored (Condition r)"
  shows "r \<notin> raw_of ` set out"
proof -
  from assms(2,3) have "fst (fill_restored r (extract_columns r)) = None"
    by (simp add: fill_restored_def)
  then have "r \<notin> set (map raw_of out)"
    by (simp add: clean_mileage_raw [OF assms(1)])
  then show ?thesis by simp
qed

lemma clean_mileage_restored:
  assumes "clean_mileage df = Inr out" "r \<in> set df"
    and "fst (extract_columns r) = None" "contains_fully_restored (Condition r)"
  shows "r \<in> raw_of ` set out"
    and "m \<in> set out \<Longrightarrow> raw_of m = r \<Longrightarrow> m = finish_row r ''km'' (Fin 1)"
proof -
  from assms(3,4) have F: "fill_restored r (extract_columns r) = (Some ''1'', None)"
    by (simp add: fill_restored_def extract_columns_None)
  with assms(2) have "r \<in> set (map raw_of out)"
    by (simp add: clean_mileage_raw [OF assms(1)])
  then show "r \<in> raw_of ` set out" by simp
  assume "m \<in> set out" "raw_of m = r"
  with clean_mileage_row [OF assms(1), of m] F
  show "m = finish_row r ''km'' (Fin 1)"
    by (auto simp: parse_mileage_one fill_unit_def)
qed

lemma finish_row_one:
  "mileage_value (finish_row r ''km'' (Fin 1)) = Fin 1"
  "mileage_unit (finish_row r ''km'' (Fin 1)) = ''km''"
  "Mileage_km (finish_row r ''km'' (Fin 1)) = Fin 1"
  by (simp_all add: finish_row_def Let_def)


lemma comma_not_digit: "\<not> is_digit CHR '',''"
  by (simp add: is_digit_def)

lemma mileage_char_cases: "is_mileage_char c \<Longrightarrow> c \<noteq> CHR '','' \<longleftrightarrow> is_digit c"
  using comma_not_digit by (cases "c = CHR '',''") (simp_all add: is_mileage_char_def)

lemma filter_commas_digits:
  assumes "list_all is_mileage_char v"
  shows "list_all is_digit (filter (\<lambda>c. c \<noteq> CHR '','') v)"
proof -
  have "is_digit c" if "c \<in> set v" "c \<noteq> CHR '',''" for c
  proof -
    from assms that(1) have "is_mileage_char c" by (simp add: list_all_iff)
    with that(2) show ?thesis by (simp add: mileage_char_cases)
  qed
  then show ?thesis by (simp add: list_all_iff)
qed

lemma filter_commas_empty:
  assumes "list_all is_mileage_char v"
  shows "filter (\<lambda>c. c \<noteq> CHR '','') v = [] \<longleftrightarrow> \<not> (\<exists>c \<in> set v. is_digit c)"
proof -
  have "(c \<noteq> CHR '','') = is_digit c" if "c \<in> set v" for c
  proof -
    from assms that have "is_mileage_char c" by (simp add: list_all_iff)
    then show ?thesis by (rule mileage_char_cases)
  qed
  then show ?thesis unfolding filter_empty_conv by blast
qed

lemma parse_mileage_Inr_iff:
  assumes "list_all is_mileage_char v"
  shows "(\<exists>x. parse_mileage v = Inr x) \<longleftrightarrow> (\<exists>c \<in> set v. is_digit c)"
  using filter_commas_digits [OF assms] filter_commas_empty [OF assms]
  by (simp add: parse_mileage_def astype_float_def)

lemma token_chars:
  assumes "fst (fill_restored r (extract_columns r)) = Some v"
  shows "list_all is_mileage_char v"
proof (cases "fst (extract_columns r)")
  case None
  with assms have "v = ''1''"
    by (auto simp: fill_restored_def split: if_splits)
  then show ?thesis by (simp add: is_mileage_char_def is_digit_def)
next
  case (Some t)
  with assms have "fst (extract_columns r) = Some v"
    by (simp add: fill_restored_def)
  then obtain s u where "str_extract s = Some (v, u)"
    by (auto simp: extract_columns_def split: option.splits)
  then show ?thesis by (simp add: str_extract_token)
qed

text \<open>
  \<open>clean_mileage\<close> returns unless some extracted number has no digit (commas only), on
  which \<open>astype(float)\<close> raises.
\<close>

lemma clean_mileage_returns_iff:
  "(\<exists>out. clean_mileage df = Inr out) \<longleftrightarrow>
   (\<forall>r \<in> set df. \<forall>v. fst (fill_restored r (extract_columns r)) = Some v \<longrightarrow> (\<exists>c \<in> set v. is_digit c))"
proof -
  let ?F = "\<lambda>r. fill_restored r (extract_columns r)"
  have row: "(\<exists>m. convert_row (r, v, u) = Inr m) \<longleftrightarrow> (\<exists>x. parse_mileage v = Inr x)" for r v u
    by (auto simp: convert_row_def split: sum.splits)
  have tok: "(\<exists>x. parse_mileage v = Inr x) \<longleftrightarrow> (\<exists>c \<in> set v. is_digit c)"
    if "fst (?F r) = Some v" for r v
    using that by (intro parse_mileage_Inr_iff token_chars)
  have "(\<exists>out. clean_mileage df = Inr out) \<longleftrightarrow>
        (\<forall>r \<in> set df. \<forall>v. fst (?F r) = Some v \<longrightarrow> (\<exists>x. parse_mileage v = Inr x))"
    by (auto simp: clean_mileage_def kept_rows map_result_Inr_iff row)
  also have "\<dots> \<longleftrightarrow> (\<forall>r \<in> set df. \<forall>v. fst (?F r) = Some v \<longrightarrow> (\<exists>c \<in> set v. is_digit c))"
    using tok by blast
  finally show ?thesis .
qed

lemmas clean_mileage_eval =
  clean_mileage_def extract_columns_def fill_restored_def match_here_def is_mileage_char_def
  is_digit_def is_space_def contains_fully_restored_def lower_char_def List.map_filter_simps
  convert_row_def parse_mileage_def astype_float_def digit_value_def fill_unit_def
  finish_row_def Let_def



text \<open>
  C3 (the code at the failing input). The mileage text \<open>50000\<close> has a number and no unit.
  Line 42 fills a missing unit with \<open>km\<close>, but the pattern of lines 28 to 30 has the unit as a
  mandatory group: without a unit nothing is extracted, number included, and the row is
  dropped by line 39 before line 42 can default its unit. On a fully restored listing the
  number is lost as well: the text \<open>1200\<close> comes out as the synthesized mileage 1.
\<close>

theorem unitless_mileage_row_dropped:
  "clean_mileage [\<lparr>URL = ''c'', Mileage = Some ''50000'', Condition = Some ''Good''\<rparr>] = Inr []
   \<and> clean_mileage [\<lparr>URL = ''b'', Mileage = Some ''1200'', Condition = Some ''Fully restored''\<rparr>]
       = Inr [\<lparr>URL = ''b'', Mileage = Some ''1200'', Condition = Some ''Fully restored'',
                mileage_value = Fin 1, mileage_unit = ''km'', Mileage_km = Fin 1\<rparr>]"
  by (simp add: clean_mileage_eval)

text \<open>
  How far the defect reaches: every row whose mileage text contains neither \<open>km\<close> nor \<open>mi\<close>
  misses the pattern, so its number never reaches the output.
\<close>

lemma unitless_mileage_row:
  assumes "clean_mileage df = Inr out" "r \<in> set df"
    and "Mileage r = Some s" "\<not> str_contains ''km'' s" "\<not> str_contains ''mi'' s"
  shows "if contains_fully_restored (Condition r)
         then r \<in> raw_of ` set out
              \<and> (\<forall>m \<in> set out. raw_of m = r \<longrightarrow>
                    mileage_value m = Fin 1 \<and> mileage_unit m = ''km'' \<and> Mileage_km m = Fin 1)
         else r \<notin> raw_of ` set out"
proof -
  from assms(3-5) have none: "fst (extract_columns r) = None"
    by (simp add: extract_columns_def no_unit_no_extract)
  show ?thesis
  proof (cases "contains_fully_restored (Condition r)")
    case True
    from clean_mileage_restored [OF assms(1,2) none True] True show ?thesis
      by (metis finish_row_one)
  next
    case False
    from clean_mileage_dropped [OF assms(1) none False] False show ?thesis
      by simp
  qed
qed

text \<open>
  Two rows with a number and no unit: the restored one comes out with mileage 1 (not 1200),
  the other one does not come out.
\<close>

lemma unitless_mileage_row_example:
  "clean_mileage
     [\<lparr>URL = ''b'', Mileage = Some ''1200'', Condition = Some ''Fully restored''\<rparr>,
      \<lparr>URL = ''c'', Mileage = Some ''50000'', Condition = Some ''Good''\<rparr>]
   = Inr [\<lparr>URL = ''b'', Mileage = Some ''1200'', Condition = Some ''Fully restored'',
            mileage_value = Fin 1, mileage_unit = ''km'', Mileage_km = Fin 1\<rparr>]
   \<and> \<not> str_contains ''km'' ''50000'' \<and> \<not> str_contains ''mi'' ''50000''
   \<and> \<not> str_contains ''km'' ''1200'' \<and> \<not> str_contains ''mi'' ''1200''
   \<and> \<lparr>URL = ''c'', Mileage = Some ''50000'', Condition = Some ''Good''\<rparr>
       \<notin> raw_of ` set [\<lparr>URL = ''b'', Mileage = Some ''1200'', Condition = Some ''Fully restored'',
            mileage_value = Fin 1, mileage_unit = ''km'', Mileage_km = Fin 1\<rparr>]
   \<and> \<lparr>URL = ''b'', Mileage = Some ''1200'', Condition = Some ''Fully restored''\<rparr>
       \<in> raw_of ` set [\<lparr>URL = ''b'', Mileage = Some ''1200'', Condition = Some ''Fully restored'',
            mileage_value = Fin 1, mileage_unit = ''km'', Mileage_km = Fin 1\<rparr>]"
  (is "clean_mileage ?df = Inr ?out \<and> _")
proof -
  have run: "clean_mileage ?df = Inr ?out"
    by (simp add: clean_mileage_eval)
  have no: "\<not> str_contains ''km'' ''50000''" "\<not> str_contains ''mi'' ''50000''"
    "\<not> str_contains ''km'' ''1200''" "\<not> str_contains ''mi'' ''1200''"
    by simp_all
  have rest: "contains_fully_restored (Some ''Fully restored'')"
    "\<not> contains_fully_restored (Some ''Good'')"
    by (simp_all add: clean_mileage_eval)
  from unitless_mileage_row [OF run _ _ no(1,2),
      of "\<lparr>URL = ''c'', Mileage = Some ''50000'', Condition = Some ''Good''\<rparr>"]
    unitless_mileage_row [OF run _ _ no(3,4),
      of "\<lparr>URL = ''b'', Mileage = Some ''1200'', Condition = Some ''Fully restored''\<rparr>"]
    run no rest
  show ?thesis by simp
qed

section \<open>Properties of the outlier filter\<close>

text \<open>
  NaN absorbs the arithmetic and fails every comparison, so a band with a NaN bound is empty.
\<close>

lemma fl_mul_NaN [simp]: "fl_mul x NaN = NaN"
  by (cases x) simp_all

lemma fl_add_NaN [simp]: "fl_add x NaN = NaN"
  by (cases x) simp_all

lemma fl_sub_NaN [simp]: "fl_sub x NaN = NaN"
  by (simp add: fl_sub_def)

lemma fl_le_NaN [simp]: "\<not> fl_le x NaN"
  by (cases x) simp_all

lemma in_band_NaN: "\<not> in_band mean_val NaN n_std x"
  by (simp add: in_band_def fl_ge_def)

lemma nanstd_short: "length xs \<le> 1 \<Longrightarrow> nanstd xs = NaN"
proof -
  assume "length xs \<le> 1"
  moreover have "length (filter notna xs) \<le> length xs" by simp
  ultimately have "length (filter notna xs) \<le> 1" by linarith
  then show ?thesis by (simp add: nanstd_def Let_def)
qed

text \<open>
  \<open>remove_outliers\<close> returns exactly when the column exists, is numeric, and the table has
  a row; what it returns is the input filtered by the band.
\<close>

lemma remove_outliers_Inr:
  assumes "remove_outliers df column n_std use_log = Inr out"
  obtains col where "column \<in> set (columns df)" "numeric_column column = Some col"
    "rows df \<noteq> []"
    "rows out = filter (\<lambda>r. in_band
         (nanmean (map (\<lambda>r. if use_log then fl_log (col r) else col r) (rows df)))
         (nanstd (map (\<lambda>r. if use_log then fl_log (col r) else col r) (rows df))) n_std
         (if use_log then fl_log (col r) else col r)) (rows df)"
    "columns out = (if use_log then removeAll (''log_'' @ column) (columns df) else columns df)"
  using assms
  by (auto simp: remove_outliers_def Let_def split: if_splits option.splits)

lemma remove_outliers_returns_iff:
  "(\<exists>out. remove_outliers df column n_std use_log = Inr out) \<longleftrightarrow>
     column \<in> set (columns df) \<and> numeric_column column \<noteq> None \<and> rows df \<noteq> []"
  by (auto simp: remove_outliers_def Let_def split: option.splits)

lemma numeric_price: "numeric_column ''price_in_eur'' = Some price_in_eur"
  by (simp add: numeric_column_def)

text \<open>
  On finite values the two statistics are the mean and the sample standard deviation.
\<close>

lemma foldl_fl_add_Fin: "foldl fl_add (Fin a) (map Fin xs) = Fin (a + sum_list xs)"
  by (induction xs arbitrary: a) (simp_all add: add.assoc)

lemma fl_sum_Fin: "fl_sum (map Fin xs) = Fin (sum_list xs)"
  by (simp add: fl_sum_def foldl_fl_add_Fin)

lemma filter_notna_Fin: "filter notna (map Fin xs) = map Fin xs"
  by (induction xs) (simp_all add: notna_def)

lemma nanmean_finite:
  "xs \<noteq> [] \<Longrightarrow> nanmean (map Fin xs) = Fin (sum_list xs / real (length xs))"
  by (simp add: nanmean_def filter_notna_Fin fl_sum_Fin)

lemma nanstd_finite:
  assumes "2 \<le> length xs" "mu = sum_list xs / real (length xs)"
  shows "nanstd (map Fin xs) =
           Fin (sqrt ((\<Sum>x\<leftarrow>xs. (mu - x) * (mu - x)) / real (length xs - 1)))"
proof -
  have sq: "map (\<lambda>v. fl_square (fl_sub (Fin mu) v)) (map Fin xs) = map Fin (map (\<lambda>x. (mu - x) * (mu - x)) xs)"
    by (simp add: fl_sub_def)
  have "0 \<le> (\<Sum>x\<leftarrow>xs. (mu - x) * (mu - x))"
    by (rule sum_list_nonneg) auto
  then have nonneg: "\<not> (\<Sum>x\<leftarrow>xs. (mu - x) * (mu - x)) / real (length xs - 1) < 0"
    by (simp add: not_less)
  from assms(1) have "\<not> length xs \<le> 1" by simp
  then show ?thesis
    unfolding nanstd_def Let_def filter_notna_Fin length_map fl_sum_Fin fl_div_count.simps
      assms(2) [symmetric] sq
    using nonneg by simp
qed

text \<open>
  An infinite value among the values makes the standard deviation NaN: the mean is then
  infinite or NaN, and the deviation of the infinite value from it is NaN.
\<close>

lemma foldl_fl_add_NaN: "foldl fl_add NaN xs = NaN"
  by (induction xs) simp_all

lemma foldl_fl_add_has_NaN: "NaN \<in> set xs \<Longrightarrow> foldl fl_add a xs = NaN"
  by (induction xs arbitrary: a) (auto simp: foldl_fl_add_NaN)

lemma foldl_fl_add_PInf_acc:
  "a = PInf \<or> a = NaN \<Longrightarrow> foldl fl_add a xs = PInf \<or> foldl fl_add a xs = NaN"
proof (induction xs arbitrary: a)
  case Nil
  then show ?case by simp
next
  case (Cons x xs)
  from Cons.prems have "fl_add a x = PInf \<or> fl_add a x = NaN"
    by (cases x) auto
  then show ?case using Cons.IH by simp
qed

lemma foldl_fl_add_NInf_acc:
  "a = NInf \<or> a = NaN \<Longrightarrow> foldl fl_add a xs = NInf \<or> foldl fl_add a xs = NaN"
proof (induction xs arbitrary: a)
  case Nil
  then show ?case by simp
next
  case (Cons x xs)
  from Cons.prems have "fl_add a x = NInf \<or> fl_add a x = NaN"
    by (cases x) auto
  then show ?case using Cons.IH by simp
qed

lemma foldl_fl_add_has_PInf:
  "PInf \<in> set xs \<Longrightarrow> foldl fl_add a xs = PInf \<or> foldl fl_add a xs = NaN"
proof (induction xs arbitrary: a)
  case Nil
  then show ?case by simp
next
  case (Cons x xs)
  show ?case
  proof (cases "x = PInf")
    case True
    then have "fl_add a x = PInf \<or> fl_add a x = NaN" by (cases a) auto
    then show ?thesis using foldl_fl_add_PInf_acc [of "fl_add a x" xs] by simp
  next
    case False
    with Cons show ?thesis by simp
  qed
qed

lemma foldl_fl_add_has_NInf:
  "NInf \<in> set xs \<Longrightarrow> foldl fl_add a xs = NInf \<or> foldl fl_add a xs = NaN"
proof (induction xs arbitrary: a)
  case Nil
  then show ?case by simp
next
  case (Cons x xs)
  show ?case
  proof (cases "x = NInf")
    case True
    then have "fl_add a x = NInf \<or> fl_add a x = NaN" by (cases a) auto
    then show ?thesis using foldl_fl_add_NInf_acc [of "fl_add a x" xs] by simp
  next
    case False
    with Cons show ?thesis by simp
  qed
qed

lemma nanstd_infinite:
  assumes "PInf \<in> set xs \<or> NInf \<in> set xs"
  shows "nanstd xs = NaN"
proof (cases "length (filter notna xs) \<le> 1")
  case True
  then show ?thesis by (simp add: nanstd_def Let_def)
next
  case False
  let ?vals = "filter notna xs"
  let ?avg = "fl_div_count (fl_sum ?vals) (length ?vals)"
  from assms have "\<exists>v \<in> set ?vals. fl_square (fl_sub ?avg v) = NaN"
  proof
    assume "PInf \<in> set xs"
    then have mem: "PInf \<in> set ?vals" by (simp add: notna_def)
    then have "fl_sum ?vals = PInf \<or> fl_sum ?vals = NaN"
      unfolding fl_sum_def by (rule foldl_fl_add_has_PInf)
    then have "fl_square (fl_sub ?avg PInf) = NaN"
      by (auto simp: fl_sub_def)
    with mem show ?thesis by blast
  next
    assume "NInf \<in> set xs"
    then have mem: "NInf \<in> set ?vals" by (simp add: notna_def)
    then have "fl_sum ?vals = NInf \<or> fl_sum ?vals = NaN"
      unfolding fl_sum_def by (rule foldl_fl_add_has_NInf)
    then have "fl_square (fl_sub ?avg NInf) = NaN"
      by (auto simp: fl_sub_def)
    with mem show ?thesis by blast
  qed
  then have "NaN \<in> set (map (\<lambda>v. fl_square (fl_sub ?avg v)) ?vals)"
    by (metis (no_types, lifting) image_eqI list.set_map)
  then have "fl_sum (map (\<lambda>v. fl_square (fl_sub ?avg v)) ?vals) = NaN"
    unfolding fl_sum_def by (rule foldl_fl_add_has_NaN)
  with False show ?thesis by (simp add: nanstd_def Let_def)
qed

lemma in_band_finite:
  assumes "in_band m (nanstd xs) n x" "x \<in> set xs"
  shows "\<exists>y. x = Fin y"
proof (cases x)
  case NaN
  with assms(1) show ?thesis by (simp add: in_band_def)
next
  case NInf
  with assms(2) have "nanstd xs = NaN" by (simp add: nanstd_infinite)
  with assms(1) show ?thesis by (simp add: in_band_NaN)
next
  case PInf
  with assms(2) have "nanstd xs = NaN" by (simp add: nanstd_infinite)
  with assms(1) show ?thesis by (simp add: in_band_NaN)
next
  case (Fin y)
  then show ?thesis by simp
qed

lemma fl_log_Fin: "fl_log x = Fin y \<Longrightarrow> \<exists>p>0. x = Fin p \<and> y = ln p"
  by (cases x) (auto split: if_splits)

text \<open>
  C5. After \<open>remove_outliers(table, column, n_std, use_log=true)\<close> has returned, every
  retained row has its log value inside the inclusive band from \<open>mean - n_std * std\<close> to
  \<open>mean + n_std * std\<close>, where mean and std are those of the log values of the input table
  of this call, and every input row whose log value is inside the band is retained.
\<close>

theorem remove_outliers_log_band:
  assumes "remove_outliers df column n_std True = Inr out"
    and "numeric_column column = Some col"
    and "mean_val = nanmean (map (\<lambda>r. fl_log (col r)) (rows df))"
    and "std_val = nanstd (map (\<lambda>r. fl_log (col r)) (rows df))"
  shows "(\<forall>r \<in> set (rows out).
            fl_ge (fl_log (col r)) (fl_sub mean_val (fl_mul n_std std_val)) \<and>
            fl_le (fl_log (col r)) (fl_add mean_val (fl_mul n_std std_val)))
       \<and> (\<forall>r \<in> set (rows df).
            fl_ge (fl_log (col r)) (fl_sub mean_val (fl_mul n_std std_val)) \<and>
            fl_le (fl_log (col r)) (fl_add mean_val (fl_mul n_std std_val))
            \<longrightarrow> r \<in> set (rows out))"
proof -
  from assms(1) obtain col' where "numeric_column column = Some col'"
    and out: "rows out = filter (\<lambda>r. in_band
         (nanmean (map (\<lambda>r. if True then fl_log (col' r) else col' r) (rows df)))
         (nanstd (map (\<lambda>r. if True then fl_log (col' r) else col' r) (rows df))) n_std
         (if True then fl_log (col' r) else col' r)) (rows df)"
    by (rule remove_outliers_Inr)
  with assms(2) have "col' = col" by simp
  with out assms(3,4) have "rows out = filter (\<lambda>r. in_band mean_val std_val n_std (fl_log (col r))) (rows df)"
    by simp
  then show ?thesis by (simp add: in_band_def)
qed

text \<open>
  The band on three prices with logs 0, 0 and 3 and \<open>n_std = 1\<close>: the mean is 1, the standard
  deviation is the square root of 3, the two rows with log 0 stay and the row with log 3 goes.
\<close>

lemma sqrt3_bounds: "1 \<le> sqrt 3" "sqrt 3 < 2"
proof -
  show "1 \<le> sqrt 3" by simp
  show "sqrt 3 < 2" by (rule real_less_lsqrt) simp_all
qed

lemma band_example:
  "in_band (Fin 1) (Fin (sqrt 3)) (Fin 1) (Fin 0)"
  "\<not> in_band (Fin 1) (Fin (sqrt 3)) (Fin 1) (Fin 3)"
  using sqrt3_bounds by (simp_all add: in_band_def fl_ge_def fl_sub_def)

lemma stats_example:
  "nanmean [Fin 0, Fin 0, Fin 3] = Fin 1"
  "nanstd [Fin 0, Fin 0, Fin 3] = Fin (sqrt 3)"
  by (simp_all add: nanmean_def nanstd_def notna_def fl_sum_def fl_sub_def Let_def)

lemma log_example: "fl_log (Fin 1) = Fin 0" "fl_log (Fin (exp 3)) = Fin 3"
  by simp_all

theorem remove_outliers_log_band_witness:
  "remove_outliers
      \<lparr>columns = [''price_in_eur''],
       rows = [blank_listing\<lparr>price_in_eur := Fin 1\<rparr>, blank_listing\<lparr>price_in_eur := Fin 1\<rparr>,
               blank_listing\<lparr>price_in_eur := Fin (exp 3)\<rparr>]\<rparr>
      ''price_in_eur'' (Fin 1) True
    = Inr \<lparr>columns = [''price_in_eur''],
           rows = [blank_listing\<lparr>price_in_eur := Fin 1\<rparr>, blank_listing\<lparr>price_in_eur := Fin 1\<rparr>]\<rparr>
   \<and> numeric_column ''price_in_eur'' = Some price_in_eur
   \<and> Fin 1 = nanmean [Fin 0, Fin 0, Fin 3]
   \<and> Fin (sqrt 3) = nanstd [Fin 0, Fin 0, Fin 3]
   \<and> fl_ge (fl_log (Fin 1)) (fl_sub (Fin 1) (fl_mul (Fin 1) (Fin (sqrt 3))))
   \<and> fl_le (fl_log (Fin 1)) (fl_add (Fin 1) (fl_mul (Fin 1) (Fin (sqrt 3))))
   \<and> \<not> fl_le (fl_log (Fin (exp 3))) (fl_add (Fin 1) (fl_mul (Fin 1) (Fin (sqrt 3))))"
  (is "remove_outliers ?df _ _ _ = Inr ?out \<and> _")
proof -
  have logs: "map (\<lambda>r. fl_log (price_in_eur r)) (rows ?df) = [Fin 0, Fin 0, Fin 3]"
    by simp
  have run: "remove_outliers ?df ''price_in_eur'' (Fin 1) True = Inr ?out"
    unfolding remove_outliers_def numeric_price Let_def
    by (simp add: stats_example band_example)
  have mean: "Fin 1 = nanmean (map (\<lambda>r. fl_log (price_in_eur r)) (rows ?df))"
    unfolding logs by (simp add: stats_example)
  have std: "Fin (sqrt 3) = nanstd (map (\<lambda>r. fl_log (price_in_eur r)) (rows ?df))"
    unfolding logs by (simp add: stats_example)
  have band: "fl_ge (fl_log (Fin 1)) (fl_sub (Fin 1) (fl_mul (Fin 1) (Fin (sqrt 3))))"
    "fl_le (fl_log (Fin 1)) (fl_add (Fin 1) (fl_mul (Fin 1) (Fin (sqrt 3))))"
    "\<not> fl_le (fl_log (Fin (exp 3))) (fl_add (Fin 1) (fl_mul (Fin 1) (Fin (sqrt 3))))"
    using sqrt3_bounds by (simp_all add: fl_ge_def fl_sub_def)
  note claim = remove_outliers_log_band [OF run numeric_price mean std]
  from run numeric_price band claim show ?thesis
    by (simp only: stats_example simp_thms)
qed

text \<open>
  The same on a table of at least two positive finite prices, in real numbers: the rows kept
  are those whose \<open>ln\<close> is within \<open>k\<close> sample standard deviations of the mean of the logs.
\<close>

lemma remove_outliers_log_band_real:
  assumes "remove_outliers df column (Fin k) True = Inr out" "numeric_column column = Some col"
    and pos: "\<forall>r \<in> set (rows df). col r = Fin (price r) \<and> 0 < price r"
    and len: "2 \<le> length (rows df)"
    and mu: "mu = (\<Sum>r\<leftarrow>rows df. ln (price r)) / real (length (rows df))"
    and sigma: "sigma = sqrt ((\<Sum>r\<leftarrow>rows df. (mu - ln (price r)) * (mu - ln (price r)))
                               / real (length (rows df) - 1))"
  shows "rows out = filter (\<lambda>r. mu - k * sigma \<le> ln (price r) \<and> ln (price r) \<le> mu + k * sigma)
                      (rows df)"
proof -
  let ?logs = "map (\<lambda>r. ln (price r)) (rows df)"
  have "fl_log (col r) = Fin (ln (price r))" if "r \<in> set (rows df)" for r
    using pos that by auto
  then have logs: "map (\<lambda>r. fl_log (col r)) (rows df) = map Fin ?logs"
    by simp
  from len have ne: "?logs \<noteq> []" by auto
  have mean: "nanmean (map (\<lambda>r. fl_log (col r)) (rows df)) = Fin mu"
    unfolding logs nanmean_finite [OF ne] mu by (simp add: comp_def)
  have std: "nanstd (map (\<lambda>r. fl_log (col r)) (rows df)) = Fin sigma"
    unfolding logs
    using nanstd_finite [of ?logs mu] len mu sigma by (simp add: comp_def)
  from assms(1) obtain col' where "numeric_column column = Some col'"
    and out: "rows out = filter (\<lambda>r. in_band
         (nanmean (map (\<lambda>r. if True then fl_log (col' r) else col' r) (rows df)))
         (nanstd (map (\<lambda>r. if True then fl_log (col' r) else col' r) (rows df))) (Fin k)
         (if True then fl_log (col' r) else col' r)) (rows df)"
    by (rule remove_outliers_Inr)
  with assms(2) have "col' = col" by simp
  with out mean std have "rows out = filter (\<lambda>r. in_band (Fin mu) (Fin sigma) (Fin k) (fl_log (col r))) (rows df)"
    by simp
  also have "\<dots> = filter (\<lambda>r. mu - k * sigma \<le> ln (price r) \<and> ln (price r) \<le> mu + k * sigma) (rows df)"
    using pos by (intro filter_cong refl) (auto simp: in_band_def fl_ge_def fl_sub_def)
  finally show ?thesis .
qed

text \<open>
  A row that the log filter retains has a positive finite value: a zero or an infinite value
  makes the standard deviation NaN, and the log of a negative value is NaN.
\<close>

lemma remove_outliers_log_positive:
  assumes "remove_outliers df column n_std True = Inr out" "numeric_column column = Some col"
    and "r \<in> set (rows out)"
  shows "\<exists>p>0. col r = Fin p"
proof -
  from assms(1) obtain col' where "numeric_column column = Some col'"
    and out: "rows out = filter (\<lambda>r. in_band
         (nanmean (map (\<lambda>r. if True then fl_log (col' r) else col' r) (rows df)))
         (nanstd (map (\<lambda>r. if True then fl_log (col' r) else col' r) (rows df))) n_std
         (if True then fl_log (col' r) else col' r)) (rows df)"
    by (rule remove_outliers_Inr)
  with assms(2) have col: "col' = col" by simp
  from assms(3) out col have r: "r \<in> set (rows df)"
    and band: "in_band (nanmean (map (\<lambda>r. fl_log (col r)) (rows df)))
                 (nanstd (map (\<lambda>r. fl_log (col r)) (rows df))) n_std (fl_log (col r))"
    by simp_all
  from r have "fl_log (col r) \<in> set (map (\<lambda>r. fl_log (col r)) (rows df))" by simp
  with band obtain y where "fl_log (col r) = Fin y" using in_band_finite by blast
  then show ?thesis using fl_log_Fin by blast
qed

text \<open>
  C10. On a table of exactly one row \<open>remove_outliers\<close> returns the empty table, whatever the
  value of the row, \<open>n_std\<close> and \<open>use_log\<close>: the standard deviation of at most one value is NaN,
  so both bounds of the band are NaN and both comparisons are false.
\<close>

theorem remove_outliers_single_row:
  assumes "rows df = [r]" "column \<in> set (columns df)" "numeric_column column = Some col"
  shows "remove_outliers df column n_std use_log =
           Inr \<lparr>columns = (if use_log then removeAll (''log_'' @ column) (columns df)
                           else columns df),
                rows = []\<rparr>"
  using assms by (simp add: remove_outliers_def Let_def nanstd_short in_band_NaN)

text \<open>
  One row with price 7, filtered in log space with three standard deviations and in linear
  space with an infinite \<open>n_std\<close>: the result is empty both times.
\<close>

theorem remove_outliers_single_row_witness:
  "rows \<lparr>columns = [''price_in_eur''], rows = [blank_listing\<lparr>price_in_eur := Fin 7\<rparr>]\<rparr>
     = [blank_listing\<lparr>price_in_eur := Fin 7\<rparr>]
   \<and> ''price_in_eur'' \<in> set (columns \<lparr>columns = [''price_in_eur''],
         rows = [blank_listing\<lparr>price_in_eur := Fin 7\<rparr>]\<rparr>)
   \<and> numeric_column ''price_in_eur'' = Some price_in_eur
   \<and> remove_outliers \<lparr>columns = [''price_in_eur''], rows = [blank_listing\<lparr>price_in_eur := Fin 7\<rparr>]\<rparr>
         ''price_in_eur'' (Fin 3) True = Inr \<lparr>columns = [''price_in_eur''], rows = []\<rparr>
   \<and> remove_outliers \<lparr>columns = [''price_in_eur''], rows = [blank_listing\<lparr>price_in_eur := Fin 7\<rparr>]\<rparr>
         ''price_in_eur'' PInf False = Inr \<lparr>columns = [''price_in_eur''], rows = []\<rparr>"
  using remove_outliers_single_row [of "\<lparr>columns = [''price_in_eur''],
        rows = [blank_listing\<lparr>price_in_eur := Fin 7\<rparr>]\<rparr>" "blank_listing\<lparr>price_in_eur := Fin 7\<rparr>"
        "''price_in_eur''" price_in_eur "Fin 3" True]
    remove_outliers_single_row [of "\<lparr>columns = [''price_in_eur''],
        rows = [blank_listing\<lparr>price_in_eur := Fin 7\<rparr>]\<rparr>" "blank_listing\<lparr>price_in_eur := Fin 7\<rparr>"
        "''price_in_eur''" price_in_eur PInf False]
  by (simp add: numeric_price)

section \<open>Properties of the listing score\<close>

lemma sum_series_if:
  "sum_list (map f ((if c then [x] else []) @ ys)) = (if c then f x else 0) + sum_list (map f ys)"
  by simp

lemma sum_series_if_last:
  "sum_list (map f (if c then [x] else [])) = (if c then f x else (0::int))"
  by simp

lemma score_row:
  assumes "i < length (rows df)"
  shows "sum_list (map (\<lambda>s. s ! i) (score_components df)) =
      (if ''Matching numbers'' \<in> set (columns df)
       then of_bool (Matching_numbers (rows df ! i) \<noteq> Some ''Unknown'') * 10 else 0)
    + ((if ''Number of vehicle owners'' \<in> set (columns df)
       then of_bool (Number_of_vehicle_owners (rows df ! i) \<noteq> Some ''Unknown'') * 10 else 0)
    + ((if ''Interior color'' \<in> set (columns df)
       then of_bool (Interior_color (rows df ! i) \<noteq> None) * 5 else 0)
    + ((if ''Exterior color'' \<in> set (columns df)
       then of_bool (Exterior_color (rows df ! i) \<noteq> None) * 5 else 0)
    + ((if ''Paint-to-Sample (PTS)'' \<in> set (columns df) then PTS (rows df ! i) * 15 else 0)
    + ((if ''is_fully_restored'' \<in> set (columns df)
       then is_fully_restored (rows df ! i) * 20 else 0)
    + (if ''Mileage_km'' \<in> set (columns df)
       then (if fl_lt (Mileage_km (rows df ! i)) (Fin 50000) then 10 else 0) else 0))))))"
  unfolding score_components_def sum_series_if sum_series_if_last
  using assms by simp

lemma scores_length:
  "length (if score_components df \<noteq> [] then row_sums (length (rows df)) (score_components df)
           else replicate (length (rows df)) 0) = length (rows df)"
  by (simp add: row_sums_def)

lemma scores_nth:
  assumes "i < length (rows df)"
  shows "(if score_components df \<noteq> [] then row_sums (length (rows df)) (score_components df)
          else replicate (length (rows df)) 0) ! i
         = sum_list (map (\<lambda>s. s ! i) (score_components df))"
  using assms by (simp add: row_sums_def)

lemma listing_score_length: "length (rows (calculate_listing_score df)) = length (rows df)"
  by (simp add: calculate_listing_score_def Let_def row_sums_def)

lemma listing_score_nth:
  assumes "i < length (rows df)"
  shows "rows (calculate_listing_score df) ! i =
           (rows df ! i)\<lparr>listing_score := sum_list (map (\<lambda>s. s ! i) (score_components df))\<rparr>"
proof -
  let ?scores = "if score_components df \<noteq> [] then row_sums (length (rows df)) (score_components df)
           else replicate (length (rows df)) 0"
  have "rows (calculate_listing_score df) ! i
          = (\<lambda>(r, s). r\<lparr>listing_score := s\<rparr>) (zip (rows df) ?scores ! i)"
    using assms scores_length [of df]
    by (simp add: calculate_listing_score_def Let_def del: if_split)
  also have "zip (rows df) ?scores ! i = (rows df ! i, ?scores ! i)"
    using assms scores_length [of df] by (simp del: if_split)
  also have "?scores ! i = sum_list (map (\<lambda>s. s ! i) (score_components df))"
    using assms by (rule scores_nth)
  finally show ?thesis by simp
qed

lemma flag_weight:
  "f = 0 \<or> f = 1 \<Longrightarrow> (if present then f * w else 0) = (if present \<and> f = 1 then w else (0::int))"
  by auto

lemma score_signals:
  assumes "i < length (rows df)" "flags_ok (rows df ! i)"
  shows "sum_list (map (\<lambda>s. s ! i) (score_components df)) = weighted_signals (columns df) (rows df ! i)"
proof -
  from assms(2) have pts: "PTS (rows df ! i) = 0 \<or> PTS (rows df ! i) = 1"
    and res: "is_fully_restored (rows df ! i) = 0 \<or> is_fully_restored (rows df ! i) = 1"
    by (simp_all add: flags_ok_def)
  show ?thesis
    unfolding score_row [OF assms(1)] weighted_signals_def signal_def
      flag_weight [OF pts] flag_weight [OF res]
    by simp
qed

text \<open>
  C9. For every table whose two flag columns hold 0 or 1, \<open>calculate_listing_score\<close> gives
  each row the sum of the seven signals: 10 if matching numbers is not \<open>"Unknown"\<close>, 10 if the
  number of owners is not \<open>"Unknown"\<close>, 5 if the interior colour is present, 5 if the exterior
  colour is present, 15 if the PTS flag is 1, 20 if \<open>is_fully_restored\<close> is 1, 10 if the mileage
  is below 50000, a signal whose source column is absent counting 0. The function is total
  (no operation of it can raise on such a table), and a table with none of the seven columns
  gets the score 0 in every row.
\<close>

theorem listing_score_signals:
  assumes "\<forall>r \<in> set (rows df). flags_ok r"
  shows "rows (calculate_listing_score df) =
           map (\<lambda>r. r\<lparr>listing_score := weighted_signals (columns df) r\<rparr>) (rows df)
       \<and> (set (columns df) \<inter> set [''Matching numbers'', ''Number of vehicle owners'',
              ''Interior color'', ''Exterior color'', ''Paint-to-Sample (PTS)'',
              ''is_fully_restored'', ''Mileage_km''] = {}
            \<longrightarrow> (\<forall>r \<in> set (rows (calculate_listing_score df)). listing_score r = 0))"
proof -
  have rows: "rows (calculate_listing_score df) =
           map (\<lambda>r. r\<lparr>listing_score := weighted_signals (columns df) r\<rparr>) (rows df)"
  proof (rule nth_equalityI)
    show "length (rows (calculate_listing_score df)) =
          length (map (\<lambda>r. r\<lparr>listing_score := weighted_signals (columns df) r\<rparr>) (rows df))"
      by (simp add: listing_score_length)
  next
    fix i assume "i < length (rows (calculate_listing_score df))"
    then have i: "i < length (rows df)" by (simp add: listing_score_length)
    with assms have "flags_ok (rows df ! i)" by simp
    with i show "rows (calculate_listing_score df) ! i =
        map (\<lambda>r. r\<lparr>listing_score := weighted_signals (columns df) r\<rparr>) (rows df) ! i"
      by (simp add: listing_score_nth score_signals)
  qed
  have "weighted_signals (columns df) r = 0"
    if "set (columns df) \<inter> set [''Matching numbers'', ''Number of vehicle owners'',
              ''Interior color'', ''Exterior color'', ''Paint-to-Sample (PTS)'',
              ''is_fully_restored'', ''Mileage_km''] = {}" for r
    using that by (simp add: weighted_signals_def signal_def)
  with rows show ?thesis by simp
qed

text \<open>
  A table with three of the source columns (scores 35 and 0) and a table with none of them
  (score 0).
\<close>

theorem listing_score_signals_witness:
  "flags_ok (blank_listing\<lparr>PTS := 1, Mileage_km := Fin 4000\<rparr>)
   \<and> flags_ok (blank_listing\<lparr>Matching_numbers := Some ''Unknown''\<rparr>)
   \<and> map listing_score (rows (calculate_listing_score
        \<lparr>columns = [''Matching numbers'', ''Paint-to-Sample (PTS)'', ''Mileage_km''],
         rows = [blank_listing\<lparr>PTS := 1, Mileage_km := Fin 4000\<rparr>,
                 blank_listing\<lparr>Matching_numbers := Some ''Unknown''\<rparr>]\<rparr>)) = [35, 0]
   \<and> set [''URL'', ''Model''] \<inter> set [''Matching numbers'', ''Number of vehicle owners'',
              ''Interior color'', ''Exterior color'', ''Paint-to-Sample (PTS)'',
              ''is_fully_restored'', ''Mileage_km''] = {}
   \<and> map listing_score (rows (calculate_listing_score
        \<lparr>columns = [''URL'', ''Model''],
         rows = [blank_listing\<lparr>PTS := 1, Mileage_km := Fin 4000\<rparr>]\<rparr>)) = [0]"
  using listing_score_signals [of "\<lparr>columns = [''Matching numbers'', ''Paint-to-Sample (PTS)'', ''Mileage_km''],
         rows = [blank_listing\<lparr>PTS := 1, Mileage_km := Fin 4000\<rparr>,
                 blank_listing\<lparr>Matching_numbers := Some ''Unknown''\<rparr>]\<rparr>"]
    listing_score_signals [of "\<lparr>columns = [''URL'', ''Model''],
         rows = [blank_listing\<lparr>PTS := 1, Mileage_km := Fin 4000\<rparr>]\<rparr>"]
  by (simp add: flags_ok_def blank_listing_def weighted_signals_def signal_def)

section \<open>Properties of the log features and of the run\<close>

text \<open>
  The steps after the filter keep the price and the log price of every row.
\<close>

lemma create_log_features_price:
  "map price_in_eur (rows (create_log_features df)) = map price_in_eur (rows df)"
  by (simp add: create_log_features_def Let_def comp_def)

lemma create_log_features_log_price:
  "''price_in_eur'' \<in> set (columns df) \<Longrightarrow>
     map log_price (rows (create_log_features df)) = map (\<lambda>r. fl_log (price_in_eur r)) (rows df)"
  by (simp add: create_log_features_def Let_def comp_def)

lemma create_model_categories_price:
  "map price_in_eur (rows (create_model_categories df)) = map price_in_eur (rows df)"
  "map log_price (rows (create_model_categories df)) = map log_price (rows df)"
  by (simp_all add: create_model_categories_def comp_def)

lemma zip_update_field:
  assumes "length ss = length rs" "\<And>r s. f (r\<lparr>listing_score := s\<rparr>) = f r"
  shows "map f (map (\<lambda>(r, s). r\<lparr>listing_score := s\<rparr>) (zip rs ss)) = map f rs"
proof -
  have "map f (map (\<lambda>(r, s). r\<lparr>listing_score := s\<rparr>) (zip rs ss)) = map (f \<circ> fst) (zip rs ss)"
    by (simp add: comp_def case_prod_unfold assms(2))
  also have "\<dots> = map f (map fst (zip rs ss))" by simp
  also have "map fst (zip rs ss) = rs" using assms(1) by simp
  finally show ?thesis .
qed

lemma calculate_listing_score_field:
  assumes "\<And>r s. f (r\<lparr>listing_score := s\<rparr>) = f r"
  shows "map f (rows (calculate_listing_score df)) = map f (rows df)"
proof -
  let ?scores = "if score_components df \<noteq> [] then row_sums (length (rows df)) (score_components df)
           else replicate (length (rows df)) 0"
  have "rows (calculate_listing_score df) = map (\<lambda>(r, s). r\<lparr>listing_score := s\<rparr>) (zip (rows df) ?scores)"
    unfolding calculate_listing_score_def Let_def by simp
  then show ?thesis
    using zip_update_field [of ?scores "rows df" f, OF scores_length assms] by simp
qed

lemma calculate_listing_score_price:
  "map price_in_eur (rows (calculate_listing_score df)) = map price_in_eur (rows df)"
  "map log_price (rows (calculate_listing_score df)) = map log_price (rows df)"
  by (rule calculate_listing_score_field; simp)+

lemma prepare_modeling_features_price:
  "map price_in_eur (rows (prepare_modeling_features df)) = map price_in_eur (rows df)"
  "map log_price (rows (prepare_modeling_features df)) = map log_price (rows df)"
  by (simp_all add: prepare_modeling_features_def Let_def comp_def)

lemma features_price:
  "map price_in_eur (rows (prepare_modeling_features (calculate_listing_score
      (create_model_categories (create_log_features df))))) = map price_in_eur (rows df)"
  by (simp only: prepare_modeling_features_price calculate_listing_score_price
      create_model_categories_price create_log_features_price)

lemma features_log_price:
  "''price_in_eur'' \<in> set (columns df) \<Longrightarrow>
   map log_price (rows (prepare_modeling_features (calculate_listing_score
      (create_model_categories (create_log_features df)))))
   = map (\<lambda>r. fl_log (price_in_eur r)) (rows df)"
  by (simp only: prepare_modeling_features_price calculate_listing_score_price
      create_model_categories_price create_log_features_log_price)

lemma maps_pointwise:
  assumes "map f xs = map h ys" "map g xs = map (\<lambda>y. k (h y)) ys" "x \<in> set xs"
  shows "g x = k (f x)"
proof -
  from assms(3) obtain i where i: "i < length xs" "xs ! i = x"
    by (auto simp: in_set_conv_nth)
  from assms(1) have len: "length xs = length ys" by (metis length_map)
  from assms(1) i len have "f x = h (ys ! i)" by (metis nth_map)
  moreover from assms(2) i len have "g x = k (h (ys ! i))" by (metis nth_map)
  ultimately show ?thesis by simp
qed

lemma fl_log_nonpositive: "p \<le> 0 \<Longrightarrow> fl_log (Fin p) = (if p = 0 then NInf else NaN)"
  by simp

text \<open>
  C8 (counterexample). A Cleaned table with the prices -5 and 0, processed without the outlier
  filter: the run is not aborted. It completes and its output table has the log prices NaN
  and minus infinity.
\<close>

theorem nonpositive_price_run_completes:
  "process_silver_to_gold
     \<lparr>columns = [''price_in_eur''],
      rows = [blank_listing\<lparr>price_in_eur := Fin (- 5)\<rparr>, blank_listing\<lparr>price_in_eur := Fin 0\<rparr>]\<rparr>
     False (Fin 3)
   = Inr \<lparr>columns = [''price_in_eur'', ''log_price'', ''listing_score''],
          rows = [blank_listing\<lparr>price_in_eur := Fin (- 5), log_price := NaN, listing_score := 0\<rparr>,
                  blank_listing\<lparr>price_in_eur := Fin 0, log_price := NInf, listing_score := 0\<rparr>]\<rparr>"
  by (simp add: process_silver_to_gold_def create_log_features_def create_model_categories_def
      calculate_listing_score_def score_components_def prepare_modeling_features_def
      add_column_def notna_def blank_listing_def Let_def)

text \<open>
  C8 (amended). \<open>create_log_features\<close> does not test the sign of the price. Without the
  outlier filter, a run on a table that has the price column always completes and persists
  its output; every row with a price is in it, with \<open>np.log\<close> of the price as its log price:
  minus infinity for the price 0 and NaN for a negative price.
\<close>

theorem log_price_unchecked:
  assumes "''price_in_eur'' \<in> set (columns silver)"
  shows "\<exists>out. process_silver_to_gold silver False outlier_std = Inr out
           \<and> map price_in_eur (rows out) = filter notna (map price_in_eur (rows silver))
           \<and> (\<forall>r \<in> set (rows out). log_price r = fl_log (price_in_eur r))
           \<and> (\<forall>r \<in> set (rows out). \<forall>p. price_in_eur r = Fin p \<and> p \<le> 0
                 \<longrightarrow> log_price r = (if p = 0 then NInf else NaN))"
proof -
  let ?df = "silver\<lparr>rows := filter (\<lambda>r. notna (price_in_eur r)) (rows silver)\<rparr>"
  let ?out = "prepare_modeling_features (calculate_listing_score
      (create_model_categories (create_log_features ?df)))"
  from assms have run: "process_silver_to_gold silver False outlier_std = Inr ?out"
    by (simp add: process_silver_to_gold_def Let_def)
  have price: "map price_in_eur (rows ?out) = map price_in_eur (rows ?df)"
    by (rule features_price)
  from assms have logp: "map log_price (rows ?out) = map (\<lambda>r. fl_log (price_in_eur r)) (rows ?df)"
    by (intro features_log_price) simp
  have each: "log_price r = fl_log (price_in_eur r)" if "r \<in> set (rows ?out)" for r
    using price logp that by (rule maps_pointwise)
  have "map price_in_eur (rows ?out) = filter notna (map price_in_eur (rows silver))"
    by (simp add: price filter_map comp_def)
  with run each show ?thesis
    by (auto simp del: fl_log.simps simp add: fl_log_nonpositive)
qed

text \<open>
  A run on one listing with the price -100.
\<close>

theorem log_price_unchecked_witness:
  "''price_in_eur'' \<in> set (columns \<lparr>columns = [''price_in_eur'', ''Model''],
      rows = [blank_listing\<lparr>price_in_eur := Fin (- 100), Model := Some ''911 Turbo''\<rparr>]\<rparr>)
   \<and> map log_price (rows (projr (process_silver_to_gold
        \<lparr>columns = [''price_in_eur'', ''Model''],
         rows = [blank_listing\<lparr>price_in_eur := Fin (- 100), Model := Some ''911 Turbo''\<rparr>]\<rparr>
        False (Fin 3)))) = [NaN]"
  using log_price_unchecked [of "\<lparr>columns = [''price_in_eur'', ''Model''],
      rows = [blank_listing\<lparr>price_in_eur := Fin (- 100), Model := Some ''911 Turbo''\<rparr>]\<rparr>" "Fin 3"]
  by (simp add: process_silver_to_gold_def create_log_features_def create_model_categories_def
      calculate_listing_score_def score_components_def prepare_modeling_features_def
      add_column_def notna_def blank_listing_def Let_def)

text \<open>
  With the outlier filter on, which is the default, no row with a non-positive price reaches
  \<open>create_log_features\<close>: every row of a completed run has a positive finite price and the
  finite logarithm of it.
\<close>

lemma process_default_positive:
  assumes "process_silver_to_gold silver True outlier_std = Inr out" "r \<in> set (rows out)"
  shows "\<exists>p>0. price_in_eur r = Fin p \<and> log_price r = Fin (ln p)"
proof -
  let ?df = "silver\<lparr>rows := filter (\<lambda>r. notna (price_in_eur r)) (rows silver)\<rparr>"
  from assms(1) obtain kept where kept: "remove_outliers ?df ''price_in_eur'' outlier_std True = Inr kept"
    and out: "out = prepare_modeling_features (calculate_listing_score
                (create_model_categories (create_log_features kept)))"
    by (auto simp: process_silver_to_gold_def Let_def split: if_splits sum.splits)
  from kept obtain col where "''price_in_eur'' \<in> set (columns ?df)"
    and "columns kept = (if True then removeAll (''log_'' @ ''price_in_eur'') (columns ?df)
                         else columns ?df)"
    by (rule remove_outliers_Inr)
  then have col: "''price_in_eur'' \<in> set (columns kept)" by simp
  have price: "map price_in_eur (rows out) = map price_in_eur (rows kept)"
    unfolding out by (rule features_price)
  have logp: "map log_price (rows out) = map (\<lambda>r. fl_log (price_in_eur r)) (rows kept)"
    unfolding out using col by (rule features_log_price)
  from price logp assms(2) have lg: "log_price r = fl_log (price_in_eur r)"
    by (rule maps_pointwise)
  from assms(2) have "price_in_eur r \<in> set (map price_in_eur (rows out))" by simp
  with price obtain r' where "r' \<in> set (rows kept)" "price_in_eur r' = price_in_eur r"
    by auto
  with remove_outliers_log_positive [OF kept numeric_price, of r']
  obtain p where "0 < p" "price_in_eur r = Fin p" by auto
  with lg show ?thesis by auto
qed

end
